theory Spec2Isabelle
  imports Complex_Main "HOL-Library.Option_ord"
begin

section \<open>The SETAR model of statsmodels/tsa/setar_model.py\<close>

text \<open>
  The source is Python 2 (\<^verbatim>\<open>from __future__ import division\<close>) on NumPy. Floats are
  modelled as exact reals, Python integers as \<open>int\<close> or \<open>nat\<close>, a value that may be
  \<^verbatim>\<open>None\<close> as an \<open>option\<close>, an exception as \<open>Inl\<close> of the sum type \<open>error + 'a\<close>.
  A list of thresholds may hold \<^verbatim>\<open>None\<close> (the grid search returns it when no candidate
  wins), so thresholds are \<open>real option list\<close>; Python 2 orders \<^verbatim>\<open>None\<close> below every
  number, which is the order of \<open>HOL-Library.Option_ord\<close>.
\<close>

subsection \<open>Exceptions\<close>

datatype error =
    ValueError string
  | InvalidRegimeError nat
  | LinAlgError
  | TypeError
  | IndexError
  | ZeroDivisionError

definition delay_message :: string where
  "delay_message = ''Delay parameter must be greater than zero and less than ar_order.''"

definition max_delay_message :: string where
  "max_delay_message = ''Maximum delay for grid search must not be greater than the autoregressive order.''"

definition thresholds_message :: string where
  "thresholds_message = ''Number of thresholds must match the order of the SETAR model''"

definition numpy_shape_message :: string where
  "numpy_shape_message = ''numpy: shapes do not fit''"

subsection \<open>Python and NumPy primitives\<close>

text \<open>A bound of a Python slice on a sequence of length \<open>n\<close>: negative bounds count from
  the end, and every bound is clipped to the sequence.\<close>

definition slice_bound :: "int \<Rightarrow> nat \<Rightarrow> nat" where
  "slice_bound i n = (if i < 0 then nat (int n + i) else min (nat i) n)"

text \<open>\<^verbatim>\<open>xs[start:stop]\<close>; a missing bound is \<open>None\<close>.\<close>

definition py_slice :: "int option \<Rightarrow> int option \<Rightarrow> 'a list \<Rightarrow> 'a list" where
  "py_slice start stop xs =
     (let n = length xs;
          lo = (case start of None \<Rightarrow> 0 | Some i \<Rightarrow> slice_bound i n);
          hi = (case stop of None \<Rightarrow> n | Some j \<Rightarrow> slice_bound j n)
      in take (hi - lo) (drop lo xs))"

text \<open>Python 2 comparison \<^verbatim>\<open>x > n\<close> where \<^verbatim>\<open>x\<close> may be \<^verbatim>\<open>None\<close>: \<^verbatim>\<open>None\<close> is smaller
  than every number.\<close>

definition py2_gt :: "int option \<Rightarrow> int \<Rightarrow> bool" where
  "py2_gt x n = (case x of None \<Rightarrow> False | Some v \<Rightarrow> v > n)"

text \<open>\<^verbatim>\<open>numpy.searchsorted(a, v)\<close> with the default \<^verbatim>\<open>side='left'\<close>, for one key: binary
  search for the leftmost insertion point.\<close>

function bisect_left :: "'a::linorder list \<Rightarrow> 'a \<Rightarrow> nat \<Rightarrow> nat \<Rightarrow> nat" where
  "bisect_left a v lo hi =
     (if lo < hi
      then (let mid = lo + (hi - lo) div 2
            in if a ! mid < v then bisect_left a v (mid + 1) hi
               else bisect_left a v lo mid)
      else lo)"
  by pat_completeness auto
termination
  by (relation "measure (\<lambda>(a, v, lo, hi). hi - lo)") auto

declare bisect_left.simps [simp del]

definition searchsorted :: "'a::linorder list \<Rightarrow> 'a \<Rightarrow> nat" where
  "searchsorted a v = bisect_left a v 0 (length a)"

text \<open>The value \<^verbatim>\<open>numpy.sort(thresholds)\<close> stored by the constructor. For
  \<^verbatim>\<open>thresholds=None\<close> NumPy wraps \<^verbatim>\<open>None\<close> in a zero-dimensional object array and
  returns it (sorting a zero-dimensional array is a no-op in the NumPy the file was written
  for); this array is not Python's \<^verbatim>\<open>None\<close>.\<close>

datatype ndarray = Array0d | Array1d "real option list"

definition np_sort :: "real list option \<Rightarrow> ndarray" where
  "np_sort thr = (case thr of None \<Rightarrow> Array0d | Some ts \<Rightarrow> Array1d (sort (map Some ts)))"

text \<open>\<^verbatim>\<open>x is None\<close> for the stored thresholds: an array is never \<^verbatim>\<open>None\<close>.\<close>

definition is_None :: "ndarray \<Rightarrow> bool" where
  "is_None a = False"

text \<open>\<^verbatim>\<open>numpy.multiply(exog_transpose, mask).T\<close> as a list of rows: \<open>X\<close> holds the rows of
  the untransposed matrix (\<open>n\<close> rows), the mask has \<open>m\<close> entries, a boolean counts as
  \<open>1\<close> or \<open>0\<close>. NumPy broadcasts when \<open>m = n\<close>, \<open>m = 1\<close> or \<open>n = 1\<close> and raises
  otherwise.\<close>

definition scale_row :: "real list \<Rightarrow> bool \<Rightarrow> real list" where
  "scale_row row b = map (\<lambda>x. x * (if b then 1 else 0)) row"

definition np_multiply_mask :: "real list list \<Rightarrow> bool list \<Rightarrow> error + real list list" where
  "np_multiply_mask X msk =
     (if length msk = length X then Inr (map2 scale_row X msk)
      else if length msk = 1 then Inr (map (\<lambda>row. scale_row row (msk ! 0)) X)
      else if length X = 1 then Inr (map (\<lambda>b. scale_row (X ! 0) b) msk)
      else Inl (ValueError numpy_shape_message))"

text \<open>\<^verbatim>\<open>numpy.concatenate(blocks, 1)\<close> for blocks with the same number of rows; an empty
  list of blocks raises.\<close>

definition np_concatenate1 :: "real list list list \<Rightarrow> error + real list list" where
  "np_concatenate1 blocks =
     (case blocks of
        [] \<Rightarrow> Inl (ValueError numpy_shape_message)
      | b # bs \<Rightarrow> Inr (map (\<lambda>r. concat (map (\<lambda>blk. blk ! r) blocks)) [0..<length b]))"

subsection \<open>Double-precision arithmetic\<close>

text \<open>A Python float is an IEEE 754 binary64 number; a finite one is modelled by the real
  number it denotes. \<open>round_double x\<close> is the double nearest to \<open>x\<close>, ties going to the even
  significand: a significand of 53 bits at the exponent of \<open>x\<close>, and multiples of
  \<open>2\<^sup>-\<^sup>1\<^sup>0\<^sup>7\<^sup>4\<close> below \<open>2\<^sup>-\<^sup>1\<^sup>0\<^sup>2\<^sup>2\<close>. It is what a decimal literal denotes
  (\<^verbatim>\<open>0.1\<close> is \<open>round_double (1 / 10)\<close>) and what an arithmetic operation on doubles
  returns from the exact result, as long as that is below the largest double in absolute
  value; infinities and NaN are not represented.\<close>

fun bit_length :: "nat \<Rightarrow> nat" where
  "bit_length n = (if n = 0 then 0 else Suc (bit_length (n div 2)))"

declare bit_length.simps [simp del]

text \<open>\<open>floor_log2 x\<close> is the \<open>e\<close> with \<open>2\<^sup>e \<le> x < 2\<^sup>e\<^sup>+\<^sup>1\<close>, for \<open>x > 0\<close>.\<close>

definition floor_log2 :: "real \<Rightarrow> int" where
  "floor_log2 x =
     (if 1 \<le> x then int (bit_length (nat \<lfloor>x\<rfloor>)) - 1
      else - int (bit_length (nat (\<lceil>1 / x\<rceil> - 1))))"

definition pow2 :: "int \<Rightarrow> real" where
  "pow2 e = (if 0 \<le> e then 2 ^ nat e else 1 / 2 ^ nat (- e))"

definition round_half_even :: "real \<Rightarrow> int" where
  "round_half_even q =
     (let f = \<lfloor>q\<rfloor>; r = q - of_int f
      in if r < 1 / 2 then f else if 1 / 2 < r then f + 1 else if even f then f else f + 1)"

definition round_double :: "real \<Rightarrow> real" where
  "round_double x =
     (if x = 0 then 0
      else let e = max (floor_log2 \<bar>x\<bar>) (- 1022) - 52
           in of_int (round_half_even (x / pow2 e)) * pow2 e)"

text \<open>The product \<^verbatim>\<open>x * y\<close> of two doubles.\<close>

definition double_mul :: "real \<Rightarrow> real \<Rightarrow> real" where
  "double_mul x y = round_double (x * y)"

subsection \<open>The lagged design\<close>

text \<open>Modelled from the spec: \<^verbatim>\<open>lagmat\<close> and \<^verbatim>\<open>add_constant\<close> of
  \<^verbatim>\<open>statsmodels.tsa.tsatools\<close> are not among the source files. The spec's
  LaggedDesignBuilder gives one row per observation with a constant leading column and
  \<open>ar_order\<close> lagged columns; the constructor keeps all \<open>N\<close> rows (a lag that reaches
  before the start of the series is \<open>0\<close>) and every method drops the first
  \<open>nobs_initial\<close> rows.\<close>

definition lagged_design :: "real list \<Rightarrow> nat \<Rightarrow> real list list" where
  "lagged_design xs p =
     map (\<lambda>t. 1 # map (\<lambda>j. if j \<le> t then xs ! (t - j) else 0) [1..<p + 1]) [0..<length xs]"

subsection \<open>The model object\<close>

record setar =
  endog :: "real list"
  exog :: "real list list"
  nobs_initial :: nat
  nobs :: int
  order :: nat
  ar_order :: nat
  min_regime_frac :: real
  min_regime_num :: int
  max_delay :: int
  threshold_grid_size :: int
  delay :: "int option"
  thresholds :: ndarray

text \<open>\<^verbatim>\<open>SETAR.__init__\<close>. The condition of the first check is Python's
  \<^verbatim>\<open>(delay is not None and delay < 1) or (delay > ar_order)\<close>. The argument
  \<open>min_regime_frac0\<close> is a double, and \<^verbatim>\<open>np.ceil(min_regime_frac * self.nobs)\<close> is the
  ceiling of the double product; it is integral and kept as an integer.\<close>

definition init ::
  "real list \<Rightarrow> nat \<Rightarrow> nat \<Rightarrow> int option \<Rightarrow> real list option \<Rightarrow> real \<Rightarrow> int option \<Rightarrow> int
     \<Rightarrow> error + setar" where
  "init endog0 order0 ar_order0 delay0 thresholds0 min_regime_frac0 max_delay0 grid_size0 =
     (if (delay0 \<noteq> None \<and> the delay0 < 1) \<or> py2_gt delay0 (int ar_order0)
      then Inl (ValueError delay_message)
      else if delay0 = None \<and> py2_gt max_delay0 (int ar_order0)
      then Inl (ValueError max_delay_message)
      else if thresholds0 \<noteq> None \<and> \<not> (length (the thresholds0) + 1 = order0)
      then Inl (ValueError thresholds_message)
      else Inr \<lparr> endog = endog0,
                 exog = lagged_design endog0 ar_order0,
                 nobs_initial = ar_order0,
                 nobs = int (length endog0) - int ar_order0,
                 order = order0,
                 ar_order = ar_order0,
                 min_regime_frac = min_regime_frac0,
                 min_regime_num =
                   \<lceil>double_mul min_regime_frac0 (real_of_int (int (length endog0) - int ar_order0))\<rceil>,
                 max_delay = (case max_delay0 of Some d \<Rightarrow> d | None \<Rightarrow> int ar_order0),
                 threshold_grid_size = grid_size0,
                 delay = delay0,
                 thresholds = np_sort thresholds0 \<rparr>)"

text \<open>What the constructor establishes about the attributes that no method assigns to:
  the design is the lagged design of the series, \<open>nobs_initial\<close> is \<open>ar_order\<close>,
  \<open>nobs = len(endog) - ar_order\<close> and \<open>min_regime_num = ceil(min_regime_frac * nobs)\<close>, the
  product being that of doubles.\<close>

definition constructed :: "setar \<Rightarrow> bool" where
  "constructed m =
     (exog m = lagged_design (endog m) (ar_order m) \<and>
      nobs_initial m = ar_order m \<and>
      nobs m = int (length (endog m)) - int (ar_order m) \<and>
      min_regime_num m = \<lceil>double_mul (min_regime_frac m) (real_of_int (nobs m))\<rceil>)"

subsection \<open>The regime partitioner: \<^verbatim>\<open>build_datasets\<close>\<close>

text \<open>\<^verbatim>\<open>self.exog[self.nobs_initial:]\<close>: the rows of the lagged design that are
  aligned with the response \<^verbatim>\<open>self.endog[self.nobs_initial:]\<close>.\<close>

definition design_rows :: "setar \<Rightarrow> real list list" where
  "design_rows m = py_slice (Some (int (nobs_initial m))) None (exog m)"

text \<open>The local \<^verbatim>\<open>threshold_var = self.endog[self.nobs_initial-delay:-delay]\<close>.\<close>

definition threshold_var :: "setar \<Rightarrow> int \<Rightarrow> real list" where
  "threshold_var m d = py_slice (Some (int (nobs_initial m) - d)) (Some (- d)) (endog m)"

text \<open>The local \<^verbatim>\<open>indicators = np.searchsorted(thresholds, threshold_var)\<close>.\<close>

definition indicators :: "setar \<Rightarrow> int \<Rightarrow> real option list \<Rightarrow> nat list" where
  "indicators m d ts = map (\<lambda>v. searchsorted ts (Some v)) (threshold_var m d)"

text \<open>The mask \<^verbatim>\<open>indicators == i\<close> and its \<^verbatim>\<open>sum()\<close>.\<close>

definition in_regime :: "setar \<Rightarrow> int \<Rightarrow> real option list \<Rightarrow> nat \<Rightarrow> bool list" where
  "in_regime m d ts i = map (\<lambda>x. x = i) (indicators m d ts)"

definition mask_sum :: "bool list \<Rightarrow> int" where
  "mask_sum msk = int (length (filter (\<lambda>b. b) msk))"

text \<open>The test \<^verbatim>\<open>in_regime.sum() < self.min_regime_num\<close> for regime \<open>i\<close>.\<close>

definition too_few :: "setar \<Rightarrow> int \<Rightarrow> real option list \<Rightarrow> nat \<Rightarrow> bool" where
  "too_few m d ts i = (mask_sum (in_regime m d ts i) < min_regime_num m)"

text \<open>The loop \<^verbatim>\<open>for i in range(order)\<close> over the regimes still to do, returning
  \<^verbatim>\<open>exog_list\<close>.\<close>

fun regime_blocks :: "setar \<Rightarrow> int \<Rightarrow> real option list \<Rightarrow> nat list \<Rightarrow> error + real list list list" where
  "regime_blocks m d ts [] = Inr []"
| "regime_blocks m d ts (i # rest) =
     (if too_few m d ts i
      then Inl (InvalidRegimeError i)
      else (case np_multiply_mask (design_rows m) (in_regime m d ts i) of
              Inl e \<Rightarrow> Inl e
            | Inr blk \<Rightarrow>
                (case regime_blocks m d ts rest of
                   Inl e \<Rightarrow> Inl e
                 | Inr blks \<Rightarrow> Inr (blk # blks))))"

text \<open>\<^verbatim>\<open>SETAR.build_datasets(delay, thresholds, order=None)\<close>. The method is a state
  transformer on the object: it returns its result (or the exception it raises) and the
  object after the call. It assigns to no attribute. A \<^verbatim>\<open>None\<close> delay fails in the
  slice arithmetic.\<close>

definition build_datasets ::
  "setar \<Rightarrow> int option \<Rightarrow> real option list \<Rightarrow> nat option
     \<Rightarrow> (error + real list \<times> real list list) \<times> setar" where
  "build_datasets m dly ts ord =
     (case dly of
        None \<Rightarrow> (Inl TypeError, m)
      | Some d \<Rightarrow>
          (let order1 = (case ord of None \<Rightarrow> order m | Some k \<Rightarrow> k);
               endog1 = py_slice (Some (int (nobs_initial m))) None (endog m)
           in (case regime_blocks m d ts [0..<order1] of
                 Inl e \<Rightarrow> (Inl e, m)
               | Inr blocks \<Rightarrow>
                   (case np_concatenate1 blocks of
                      Inl e \<Rightarrow> (Inl e, m)
                    | Inr exog1 \<Rightarrow> (Inr (endog1, exog1), m)))))"

subsection \<open>Matrices as lists of rows\<close>

text \<open>A two-dimensional array is the list of its rows. A list of rows does not record the
  number of columns of a matrix with no rows, so the operations that need it take it as
  an argument; the source's shapes give it at each call.\<close>

definition dotp :: "real list \<Rightarrow> real list \<Rightarrow> real" where
  "dotp u v = sum_list (map2 (*) u v)"

definition col :: "real list list \<Rightarrow> nat \<Rightarrow> real list" where
  "col A j = map (\<lambda>row. row ! j) A"

text \<open>\<^verbatim>\<open>A.T\<close> for \<open>A\<close> with \<open>c\<close> columns.\<close>

definition transp :: "nat \<Rightarrow> real list list \<Rightarrow> real list list" where
  "transp c A = map (col A) [0..<c]"

text \<open>\<^verbatim>\<open>A.dot(B)\<close> for \<open>B\<close> with \<open>p\<close> columns, \<^verbatim>\<open>v.dot(B)\<close> and \<^verbatim>\<open>A.dot(v)\<close> for a
  one-dimensional \<open>v\<close>, and the elementwise differences.\<close>

definition mat_mul :: "real list list \<Rightarrow> real list list \<Rightarrow> nat \<Rightarrow> real list list" where
  "mat_mul A B p = map (\<lambda>row. map (\<lambda>j. dotp row (col B j)) [0..<p]) A"

definition vec_mat :: "real list \<Rightarrow> real list list \<Rightarrow> nat \<Rightarrow> real list" where
  "vec_mat v B p = map (\<lambda>j. dotp v (col B j)) [0..<p]"

definition mat_vec :: "real list list \<Rightarrow> real list \<Rightarrow> real list" where
  "mat_vec A v = map (\<lambda>row. dotp row v) A"

definition vec_sub :: "real list \<Rightarrow> real list \<Rightarrow> real list" where
  "vec_sub u v = map2 (-) u v"

definition mat_sub :: "real list list \<Rightarrow> real list list \<Rightarrow> real list list" where
  "mat_sub A B = map2 vec_sub A B"

definition identity_mat :: "nat \<Rightarrow> real list list" where
  "identity_mat n = map (\<lambda>i. map (\<lambda>j. if i = j then 1 else 0) [0..<n]) [0..<n]"

subsection \<open>Matrix inversion\<close>

text \<open>\<^verbatim>\<open>numpy.linalg.inv\<close> is a parameter of the functions that call it. For running
  them there is Gauss-Jordan elimination on the matrix extended by the identity, in exact
  arithmetic: \<open>None\<close> stands for \<^verbatim>\<open>LinAlgError\<close>, raised when a column has no pivot,
  which is when the matrix is singular.\<close>

fun pivot_split ::
  "nat \<Rightarrow> real list list \<Rightarrow> (real list list \<times> real list \<times> real list list) option" where
  "pivot_split j [] = None"
| "pivot_split j (r # rs) =
     (if r ! j \<noteq> 0 then Some ([], r, rs)
      else (case pivot_split j rs of
              None \<Rightarrow> None
            | Some (pre, p, post) \<Rightarrow> Some (r # pre, p, post)))"

fun eliminate :: "nat \<Rightarrow> nat \<Rightarrow> real list list \<Rightarrow> real list list \<Rightarrow> real list list option" where
  "eliminate 0 j finished todo = Some finished"
| "eliminate (Suc fuel) j finished todo =
     (case pivot_split j todo of
        None \<Rightarrow> None
      | Some (pre, p, post) \<Rightarrow>
          (let p1 = map (\<lambda>x. x / (p ! j)) p;
               clear = (\<lambda>r. map2 (\<lambda>x y. x - (r ! j) * y) r p1)
           in eliminate fuel (j + 1) (map clear finished @ [p1]) (map clear (pre @ post))))"

definition gauss_jordan_inv :: "real list list \<Rightarrow> real list list option" where
  "gauss_jordan_inv A =
     (let n = length A
      in map_option (map (drop n)) (eliminate n 0 [] (map2 (@) A (identity_mat n))))"

subsection \<open>The objective of the grid search\<close>

text \<open>\<^verbatim>\<open>SETAR._grid_search_objective(delay, thresholds, XX, resids)\<close>. The argument
  \<open>linalg_inv\<close> stands for \<^verbatim>\<open>numpy.linalg.inv\<close>, which returns the inverse or raises
  \<^verbatim>\<open>LinAlgError\<close> (here \<open>None\<close>) for a singular matrix. \<open>X1\<close> has one row per row of the
  partitioned design and \<open>len(thresholds) * k\<close> columns; NumPy's \<^verbatim>\<open>dot\<close> raises when the
  row counts of \<open>X\<close> and \<open>X1\<close> differ.\<close>

text \<open>The locals of the objective: \<^verbatim>\<open>X1 = exog[:, :-k]\<close>, the matrix
  \<^verbatim>\<open>X1X1 - XX1.T.dot(XX).dot(XX1)\<close> that is inverted, and the returned
  \<^verbatim>\<open>resids.T.dot(X1).dot(Mn).dot(X1.T).dot(resids)\<close>; \<open>c\<close> is the number of columns of
  \<open>X1\<close> and \<open>k\<close> that of \<open>X\<close>.\<close>

definition incremental_design :: "nat \<Rightarrow> real list list \<Rightarrow> real list list" where
  "incremental_design k exog1 = map (py_slice None (Some (- int k))) exog1"

definition inner_matrix ::
  "nat \<Rightarrow> nat \<Rightarrow> real list list \<Rightarrow> real list list \<Rightarrow> real list list \<Rightarrow> real list list" where
  "inner_matrix c k X1 X XX =
     (let X1X1 = mat_mul (transp c X1) X1 c;
          XX1 = mat_mul (transp k X) X1 c
      in mat_sub X1X1 (mat_mul (mat_mul (transp c XX1) XX k) XX1 c))"

definition quadratic_form :: "nat \<Rightarrow> real list \<Rightarrow> real list list \<Rightarrow> real list list \<Rightarrow> real" where
  "quadratic_form c resids X1 Mn =
     dotp (vec_mat (vec_mat (vec_mat resids X1 c) Mn c) (transp c X1) (length X1)) resids"

definition grid_search_objective ::
  "(real list list \<Rightarrow> real list list option) \<Rightarrow> setar \<Rightarrow> int option \<Rightarrow> real option list
     \<Rightarrow> real list list \<Rightarrow> real list \<Rightarrow> error + real" where
  "grid_search_objective linalg_inv m dly ts XX resids =
     (case fst (build_datasets m dly ts (Some (length ts + 1))) of
        Inl e \<Rightarrow> Inl e
      | Inr (endog1, exog1) \<Rightarrow>
          (let k = ar_order m + 1;
               c = length ts * k;
               X1 = incremental_design k exog1;
               X = design_rows m
           in if length X \<noteq> length X1 then Inl (ValueError numpy_shape_message)
              else (case linalg_inv (inner_matrix c k X1 X XX) of
                      None \<Rightarrow> Inl LinAlgError
                    | Some Mn \<Rightarrow> Inr (quadratic_form c resids X1 Mn))))"

subsection \<open>The grid search\<close>

text \<open>\<^verbatim>\<open>np.unique(np.sort(xs))\<close>: the distinct values in ascending order.\<close>

definition np_unique :: "real list \<Rightarrow> real list" where
  "np_unique xs = remdups_adj (sort xs)"

text \<open>\<^verbatim>\<open>np.arange(start, stop, step, dtype=int)\<close> for whole numbers and \<open>step \<ge> 1\<close>: the
  \<open>\<lceil>(stop - start) / step\<rceil>\<close> values \<open>start, start + step, ...\<close> below \<open>stop\<close>.\<close>

definition np_arange :: "int \<Rightarrow> int \<Rightarrow> int \<Rightarrow> int list" where
  "np_arange start stop step =
     map (\<lambda>i. start + int i * step) [0..<nat (- ((start - stop) div step))]"

text \<open>\<^verbatim>\<open>a[indices]\<close> for an array of indices: a negative index counts from the end, an
  index outside the array raises.\<close>

fun np_take :: "'a list \<Rightarrow> int list \<Rightarrow> error + 'a list" where
  "np_take a [] = Inr []"
| "np_take a (i # rest) =
     (let n = int (length a); j = (if i < 0 then n + i else i)
      in if 0 \<le> j \<and> j < n
         then (case np_take a rest of Inl e \<Rightarrow> Inl e | Inr vs \<Rightarrow> Inr (a ! nat j # vs))
         else Inl IndexError)"

text \<open>The threshold grid built for one delay inside \<^verbatim>\<open>_select_hyperparameters_grid\<close>.
  A \<^verbatim>\<open>None\<close> delay fails at \<^verbatim>\<open>-delay\<close>; \<^verbatim>\<open>nobs / threshold_grid_size\<close> is a true
  division of two integers, whose floor is the integer quotient.\<close>

definition threshold_grid :: "setar \<Rightarrow> int \<Rightarrow> int option \<Rightarrow> error + real list" where
  "threshold_grid m grid_size dly =
     (case dly of
        None \<Rightarrow> Inl TypeError
      | Some d \<Rightarrow>
          (let tv = np_unique (py_slice None (Some (- d)) (endog m));
               n = int (length tv)
           in if grid_size = 0 then Inl ZeroDivisionError
              else np_take tv (np_arange (min_regime_num m) (n - min_regime_num m)
                                 (max (n div grid_size) 1))))"

type_synonym params = "int option \<times> real option"

text \<open>The inner loop \<^verbatim>\<open>for threshold in threshold_grid\<close> over the candidates still to
  do, on the state \<open>(params, max_obj)\<close>. Only \<^verbatim>\<open>InvalidRegimeError\<close> is caught.\<close>

fun thresholds_loop ::
  "(real list list \<Rightarrow> real list list option) \<Rightarrow> setar \<Rightarrow> real option list \<Rightarrow> real list list
     \<Rightarrow> real list \<Rightarrow> int option \<Rightarrow> real list \<Rightarrow> params \<times> real \<Rightarrow> error + params \<times> real" where
  "thresholds_loop linalg_inv m ts XX resids dly [] st = Inr st"
| "thresholds_loop linalg_inv m ts XX resids dly (t # rest) (ps, max_obj) =
     (case grid_search_objective linalg_inv m dly (sort (Some t # ts)) XX resids of
        Inl (InvalidRegimeError i) \<Rightarrow>
          thresholds_loop linalg_inv m ts XX resids dly rest (ps, max_obj)
      | Inl e \<Rightarrow> Inl e
      | Inr obj \<Rightarrow>
          if obj > max_obj
          then thresholds_loop linalg_inv m ts XX resids dly rest ((dly, Some t), obj)
          else thresholds_loop linalg_inv m ts XX resids dly rest (ps, max_obj))"

text \<open>The outer loop \<^verbatim>\<open>for delay in delay_grid\<close>.\<close>

fun delays_loop ::
  "(real list list \<Rightarrow> real list list option) \<Rightarrow> setar \<Rightarrow> real option list \<Rightarrow> int
     \<Rightarrow> real list list \<Rightarrow> real list \<Rightarrow> int option list \<Rightarrow> params \<times> real
     \<Rightarrow> error + params \<times> real" where
  "delays_loop linalg_inv m ts grid_size XX resids [] st = Inr st"
| "delays_loop linalg_inv m ts grid_size XX resids (dly # rest) st =
     (case threshold_grid m grid_size dly of
        Inl e \<Rightarrow> Inl e
      | Inr grid \<Rightarrow>
          (case thresholds_loop linalg_inv m ts XX resids dly grid st of
             Inl e \<Rightarrow> Inl e
           | Inr st' \<Rightarrow> delays_loop linalg_inv m ts grid_size XX resids rest st'))"

text \<open>\<^verbatim>\<open>SETAR._select_hyperparameters_grid(thresholds, threshold_grid_size, XX, resids,
  delay_grid=None)\<close>.\<close>

definition select_hyperparameters_grid ::
  "(real list list \<Rightarrow> real list list option) \<Rightarrow> setar \<Rightarrow> real option list \<Rightarrow> int
     \<Rightarrow> real list list \<Rightarrow> real list \<Rightarrow> int option list option \<Rightarrow> error + params \<times> real" where
  "select_hyperparameters_grid linalg_inv m ts grid_size XX resids delay_grid =
     delays_loop linalg_inv m ts grid_size XX resids
       (case delay_grid of None \<Rightarrow> map Some [2..max_delay m] | Some g \<Rightarrow> g)
       ((None, None), 0)"

text \<open>The candidates of a grid search in the order of the two loops: for each delay of the
  delay grid, the thresholds of its grid (up to a delay whose grid raises); the objective of
  a candidate as the inner loop calls it, with \<^verbatim>\<open>np.sort([threshold] + thresholds)\<close>; and
  what it is for a candidate to be skipped by \<^verbatim>\<open>except InvalidRegimeError: pass\<close>.\<close>

type_synonym candidate = "int option \<times> real"

definition objective_at ::
  "(real list list \<Rightarrow> real list list option) \<Rightarrow> setar \<Rightarrow> real option list \<Rightarrow> real list list
     \<Rightarrow> real list \<Rightarrow> candidate \<Rightarrow> error + real" where
  "objective_at linalg_inv m ts XX resids c =
     grid_search_objective linalg_inv m (fst c) (sort (Some (snd c) # ts)) XX resids"

fun candidates :: "setar \<Rightarrow> int \<Rightarrow> int option list \<Rightarrow> candidate list" where
  "candidates m grid_size [] = []"
| "candidates m grid_size (dly # rest) =
     (case threshold_grid m grid_size dly of
        Inl e \<Rightarrow> []
      | Inr grid \<Rightarrow> map (Pair dly) grid @ candidates m grid_size rest)"

definition skipped :: "error + real \<Rightarrow> bool" where
  "skipped r = (case r of Inl (InvalidRegimeError i) \<Rightarrow> True | _ \<Rightarrow> False)"

text \<open>The relation between the state \<open>(params, max_obj)\<close> before and after a run of the
  loops over the candidates \<open>xs\<close> that raises nothing: every candidate is skipped or has a
  value, and either the state is unchanged and no value exceeds \<open>max_obj\<close>, or the state is
  a candidate and its value, which exceeds the old \<open>max_obj\<close>, every earlier value and is at
  least every later value.\<close>

definition first_maximum ::
  "(candidate \<Rightarrow> error + real) \<Rightarrow> candidate list \<Rightarrow> params \<times> real \<Rightarrow> params \<times> real \<Rightarrow> bool" where
  "first_maximum f xs st0 st =
     ((\<forall>c\<in>set xs. skipped (f c) \<or> (\<exists>v. f c = Inr v)) \<and>
      ((st = st0 \<and> (\<forall>c\<in>set xs. \<forall>v. f c = Inr v \<longrightarrow> v \<le> snd st0)) \<or>
       (\<exists>pre c post. xs = pre @ c # post \<and> fst st = (fst c, Some (snd c)) \<and>
           f c = Inr (snd st) \<and> snd st0 < snd st \<and>
           (\<forall>b\<in>set pre. \<forall>v. f b = Inr v \<longrightarrow> v < snd st) \<and>
           (\<forall>b\<in>set post. \<forall>v. f b = Inr v \<longrightarrow> v \<le> snd st))))"

subsection \<open>The search: \<^verbatim>\<open>select_hyperparameters\<close>\<close>

text \<open>One sweep of the refinement, \<^verbatim>\<open>for j in range(i)\<close>, over the positions still to
  do: position \<open>j\<close> of \<open>proposed\<close> is recomputed with the other entries of \<open>thresholds\<close>
  held fixed.\<close>

fun sweep_loop ::
  "(real list list \<Rightarrow> real list list option) \<Rightarrow> setar \<Rightarrow> int \<Rightarrow> real list list \<Rightarrow> real list
     \<Rightarrow> int option \<Rightarrow> real option list \<Rightarrow> nat list \<Rightarrow> real option list
     \<Rightarrow> error + real option list" where
  "sweep_loop linalg_inv m grid_size XX resids dly thrs [] proposed = Inr proposed"
| "sweep_loop linalg_inv m grid_size XX resids dly thrs (j # rest) proposed =
     (case select_hyperparameters_grid linalg_inv m (take j thrs @ drop (j + 1) thrs)
             grid_size XX resids (Some [dly]) of
        Inl e \<Rightarrow> Inl e
      | Inr (ps, min_obj) \<Rightarrow>
          sweep_loop linalg_inv m grid_size XX resids dly thrs rest (proposed[j := snd ps]))"

definition maxiter :: nat where
  "maxiter = 100"

definition convergence_warning :: string where
  "convergence_warning = ''Warning: Maximum number of iterations has been exceeded.''"

text \<open>The locals of the \<^verbatim>\<open>while True\<close> loop when it is left.\<close>

record loop_exit =
  exit_thresholds :: "real option list"
  exit_proposed :: "real option list"
  exit_iteration :: nat
  exit_warned :: bool

text \<open>The loop \<^verbatim>\<open>while True\<close> of the refinement, entered with the values of
  \<open>iteration\<close> and \<open>thresholds\<close>; \<open>sweep\<close> is the body's \<^verbatim>\<open>for j in range(i)\<close>, which
  computes \<open>proposed\<close> from \<open>thresholds\<close>. The loop is left by the first \<^verbatim>\<open>break\<close>
  when the proposal equals the thresholds, by the second (after the warning is printed)
  when \<open>iteration > maxiter\<close>, and by an exception of the sweep.\<close>

function refine ::
  "(real option list \<Rightarrow> error + real option list) \<Rightarrow> nat \<Rightarrow> real option list
     \<Rightarrow> error + loop_exit" where
  "refine sweep iteration thrs =
     (case sweep thrs of
        Inl e \<Rightarrow> Inl e
      | Inr proposed \<Rightarrow>
          if proposed = thrs
          then Inr \<lparr>exit_thresholds = thrs, exit_proposed = proposed,
                    exit_iteration = iteration + 1, exit_warned = False\<rparr>
          else if iteration + 1 > maxiter
          then Inr \<lparr>exit_thresholds = thrs, exit_proposed = proposed,
                    exit_iteration = iteration + 1, exit_warned = True\<rparr>
          else refine sweep (iteration + 1) proposed)"
  by pat_completeness auto
termination
  by (relation "measure (\<lambda>(sweep, iteration, thrs). maxiter + 1 - iteration)") auto

declare refine.simps [simp del]


text \<open>The loop \<^verbatim>\<open>for i in range(2, self.order)\<close> over the values of \<open>i\<close> still to do, on
  the state of \<open>thresholds\<close> and of what was printed.\<close>

fun remaining_thresholds ::
  "(real list list \<Rightarrow> real list list option) \<Rightarrow> setar \<Rightarrow> int \<Rightarrow> real list list \<Rightarrow> real list
     \<Rightarrow> int option \<Rightarrow> nat list \<Rightarrow> real option list \<times> string list
     \<Rightarrow> error + real option list \<times> string list" where
  "remaining_thresholds linalg_inv m grid_size XX resids dly [] st = Inr st"
| "remaining_thresholds linalg_inv m grid_size XX resids dly (i # rest) (thrs, printed) =
     (case select_hyperparameters_grid linalg_inv m thrs grid_size XX resids (Some [dly]) of
        Inl e \<Rightarrow> Inl e
      | Inr (ps, min_obj) \<Rightarrow>
          (case refine (\<lambda>cur. sweep_loop linalg_inv m grid_size XX resids dly cur [0..<i] cur)
                  0 (thrs @ [snd ps]) of
             Inl e \<Rightarrow> Inl e
           | Inr ex \<Rightarrow>
               remaining_thresholds linalg_inv m grid_size XX resids dly rest
                 (exit_thresholds ex,
                  if exit_warned ex then printed @ [convergence_warning] else printed)))"

text \<open>The cached quantities of \<^verbatim>\<open>select_hyperparameters\<close>: the matrix
  \<^verbatim>\<open>exog.T.dot(exog)\<close> whose inverse is \<open>XX\<close>, and the residuals
  \<^verbatim>\<open>endog - np.dot(exog, XX.dot(exog.T.dot(endog)))\<close> of the single-regime regression.\<close>

definition gram :: "nat \<Rightarrow> real list list \<Rightarrow> real list list" where
  "gram k X = mat_mul (transp k X) X k"

definition baseline_resids :: "nat \<Rightarrow> real list \<Rightarrow> real list list \<Rightarrow> real list list \<Rightarrow> real list" where
  "baseline_resids k endog1 exog1 XX =
     vec_sub endog1 (mat_vec exog1 (mat_vec XX (mat_vec (transp k exog1) endog1)))"

text \<open>\<^verbatim>\<open>SETAR.select_hyperparameters()\<close>: the returned pair and what was printed.\<close>

definition select_hyperparameters ::
  "(real list list \<Rightarrow> real list list option) \<Rightarrow> setar
     \<Rightarrow> error + (int option \<times> real option list) \<times> string list" where
  "select_hyperparameters linalg_inv m =
     (let endog1 = py_slice (Some (int (nobs_initial m))) None (endog m);
          exog1 = design_rows m;
          k = ar_order m + 1
      in (case linalg_inv (gram k exog1) of
            None \<Rightarrow> Inl LinAlgError
          | Some XX \<Rightarrow>
              (let resids = baseline_resids k endog1 exog1 XX
               in (case select_hyperparameters_grid linalg_inv m []
                          (threshold_grid_size m) XX resids None of
                     Inl e \<Rightarrow> Inl e
                   | Inr (ps, min_obj) \<Rightarrow>
                       (case remaining_thresholds linalg_inv m (threshold_grid_size m) XX resids
                               (fst ps) [2..<order m] ([snd ps], []) of
                          Inl e \<Rightarrow> Inl e
                        | Inr (thrs, printed) \<Rightarrow> Inr ((fst ps, sort thrs), printed))))))"

subsection \<open>Fitting\<close>

text \<open>\<^verbatim>\<open>SETAR.fit()\<close> as a state transformer on the object; \<open>ols\<close> stands for
  \<^verbatim>\<open>OLS(endog, exog).fit()\<close> of \<^verbatim>\<open>statsmodels.regression.linear_model\<close>. An assignment
  made before an exception stays. \<^verbatim>\<open>np.searchsorted\<close> refuses the zero-dimensional array
  that a constructor without thresholds stored.\<close>

definition fit_partition ::
  "(real list \<Rightarrow> real list list \<Rightarrow> 'r) \<Rightarrow> setar \<Rightarrow> (error + 'r) \<times> setar" where
  "fit_partition ols m =
     (case thresholds m of
        Array0d \<Rightarrow>
          (if delay m = None then (Inl TypeError, m)
           else (Inl (ValueError numpy_shape_message), m))
      | Array1d ts \<Rightarrow>
          (case build_datasets m (delay m) ts None of
             (Inl e, m') \<Rightarrow> (Inl e, m')
           | (Inr (endog1, exog1), m') \<Rightarrow> (Inr (ols endog1 exog1), m')))"

definition fit ::
  "(real list list \<Rightarrow> real list list option) \<Rightarrow> (real list \<Rightarrow> real list list \<Rightarrow> 'r) \<Rightarrow> setar
     \<Rightarrow> (error + 'r) \<times> setar" where
  "fit linalg_inv ols m =
     (if delay m = None \<or> is_None (thresholds m)
      then (case select_hyperparameters linalg_inv m of
              Inl e \<Rightarrow> (Inl e, m)
            | Inr ((d, ts), printed) \<Rightarrow>
                fit_partition ols (m\<lparr>delay := d, thresholds := Array1d ts\<rparr>))
      else fit_partition ols m)"

subsection \<open>Example objects\<close>

text \<open>A series of twelve observations and the object that
  \<^verbatim>\<open>SETAR(series1, 2, 2)\<close> constructs from it: two regimes, two lags, ten aligned rows,
  at least one observation per regime.\<close>

definition series1 :: "real list" where
  "series1 = [1, 3, 2, 5, 4, 7, 6, 9, 8, 11, 10, 12]"

definition model1 :: setar where
  "model1 = \<lparr> endog = series1, exog = lagged_design series1 2, nobs_initial = 2, nobs = 10,
               order = 2, ar_order = 2, min_regime_frac = round_double (1 / 10),
               min_regime_num = 1,
               max_delay = 2, threshold_grid_size = 100, delay = None, thresholds = Array0d \<rparr>"

text \<open>The series \<open>1, 2, \<dots>, 27\<close> and the object that \<^verbatim>\<open>SETAR(series2, 2, 2,
  min_regime_frac=0.28)\<close> constructs from it: twenty-five aligned rows, and the double
  product \<^verbatim>\<open>0.28 * 25\<close> is \<^verbatim>\<open>7.000000000000001\<close>, so at least eight observations per
  regime.\<close>

definition series2 :: "real list" where
  "series2 = [1, 2, 3, 4, 5, 6, 7, 8, 9, 10, 11, 12, 13, 14, 15, 16, 17, 18, 19, 20, 21, 22, 23,
              24, 25, 26, 27]"

definition model2 :: setar where
  "model2 = \<lparr> endog = series2, exog = lagged_design series2 2, nobs_initial = 2, nobs = 25,
               order = 2, ar_order = 2, min_regime_frac = round_double (7 / 25),
               min_regime_num = 8,
               max_delay = 2, threshold_grid_size = 100, delay = None, thresholds = Array0d \<rparr>"

text \<open>A series of ten observations, and the object that \<^verbatim>\<open>SETAR(series3, 2, 2,
  min_regime_frac=0.3)\<close> constructs from it: eight aligned rows, and at least three
  observations per regime.\<close>

definition series3 :: "real list" where
  "series3 = [1, 3, 2, 5, 4, 7, 6, 9, 8, 10]"

definition model3 :: setar where
  "model3 = \<lparr> endog = series3, exog = lagged_design series3 2, nobs_initial = 2, nobs = 8,
               order = 2, ar_order = 2, min_regime_frac = round_double (3 / 10),
               min_regime_num = 3,
               max_delay = 2, threshold_grid_size = 100, delay = None, thresholds = Array0d \<rparr>"

text \<open>For \<open>series3\<close>: the inverse \<open>(X'X)\<^sup>-\<^sup>1\<close> of the Gram matrix of the design, and the
  residuals of the regression without regimes, as \<^verbatim>\<open>select_hyperparameters\<close> caches them.\<close>

definition baseline_inverse3 :: "real list list" where
  "baseline_inverse3 =
     [[359 / 420, - (7 / 60), - (2 / 105)],
      [- (7 / 60), 19 / 420, - (1 / 35)],
      [- (2 / 105), - (1 / 35), 4 / 105]]"

definition baseline_resids3 :: "real list" where
  "baseline_resids3 = [- (4 / 5), 39 / 140, 13 / 70, 41 / 140, 1 / 5, 43 / 140, 3 / 14, - (19 / 28)]"

text \<open>A series of ten observations in which every observation that follows a negative one
  is \<open>0\<close>, and the object that \<^verbatim>\<open>SETAR(series4, 2, 2)\<close> constructs from it, with the
  default \<^verbatim>\<open>min_regime_frac=0.1\<close>: eight aligned rows and at least one observation per
  regime. With it, the inverse \<open>(X'X)\<^sup>-\<^sup>1\<close> and the residuals that
  \<^verbatim>\<open>select_hyperparameters\<close> caches.\<close>

definition series4 :: "real list" where
  "series4 = [- 3, 0, 5, - 2, 0, 6, - 1, 0, 7, 4]"

definition model4 :: setar where
  "model4 = \<lparr> endog = series4, exog = lagged_design series4 2, nobs_initial = 2, nobs = 8,
               order = 2, ar_order = 2, min_regime_frac = round_double (1 / 10),
               min_regime_num = 1,
               max_delay = 2, threshold_grid_size = 100, delay = None, thresholds = Array0d \<rparr>"

definition baseline_inverse4 :: "real list list" where
  "baseline_inverse4 =
     [[8369 / 44802, - (1205 / 44802), - (815 / 44802)],
      [- (1205 / 44802), 575 / 44802, 203 / 44802],
      [- (815 / 44802), 203 / 44802, 695 / 44802]]"

definition baseline_resids4 :: "real list" where
  "baseline_resids4 =
     [- (29144 / 22401), - (73690 / 22401), - (17330 / 22401), 2577 / 4978, - (79681 / 44802), 12458 / 22401, 52337 / 22401, 27871 / 7467]"



section \<open>Properties\<close>

subsection \<open>Slices and binary search\<close>

lemma py_slice_from: "py_slice (Some (int p)) None xs = drop p xs"
  by (simp add: py_slice_def slice_bound_def Let_def min_def)

lemma length_py_slice_lag:
  assumes "1 \<le> d" "d \<le> int p"
  shows "length (py_slice (Some (int p - d)) (Some (- d)) xs) = length xs - p"
proof -
  have a: "slice_bound (int p - d) (length xs) = min (p - nat d) (length xs)"
    using assms by (simp add: slice_bound_def nat_diff_distrib)
  have b: "slice_bound (- d) (length xs) = length xs - nat d"
    using assms by (simp add: slice_bound_def nat_diff_distrib)
  show ?thesis using assms by (simp add: py_slice_def Let_def a b min_def; linarith)
qed

lemma bisect_left_bounds:
  "lo \<le> hi \<Longrightarrow> lo \<le> bisect_left a v lo hi \<and> bisect_left a v lo hi \<le> hi"
proof (induction a v lo hi rule: bisect_left.induct)
  case (1 a v lo hi)
  show ?case
  proof (cases "lo < hi")
    case False
    then have "bisect_left a v lo hi = lo" by (subst bisect_left.simps) simp
    with "1.prems" False show ?thesis by simp
  next
    case True
    define mid where "mid = lo + (hi - lo) div 2"
    have m: "lo \<le> mid" "mid < hi" using True by (auto simp: mid_def)
    show ?thesis
    proof (cases "a ! mid < v")
      case lt: True
      have "mid + 1 \<le> bisect_left a v (mid + 1) hi \<and> bisect_left a v (mid + 1) hi \<le> hi"
        using "1.IH"(1)[OF True mid_def lt] m by simp
      then show ?thesis using True lt m
        by (simp add: bisect_left.simps[of a v lo hi] mid_def[symmetric] Let_def)
    next
      case ge: False
      have "lo \<le> bisect_left a v lo mid \<and> bisect_left a v lo mid \<le> mid"
        using "1.IH"(2)[OF True mid_def ge] m by simp
      then show ?thesis using True ge m
        by (simp add: bisect_left.simps[of a v lo hi] mid_def[symmetric] Let_def)
    qed
  qed
qed

lemma bisect_left_sorted:
  "sorted a \<Longrightarrow> lo \<le> hi \<Longrightarrow> hi \<le> length a \<Longrightarrow> (\<forall>i<lo. a ! i < v)
     \<Longrightarrow> (\<forall>i. hi \<le> i \<and> i < length a \<longrightarrow> v \<le> a ! i)
     \<Longrightarrow> (\<forall>i<bisect_left a v lo hi. a ! i < v) \<and>
         (\<forall>i. bisect_left a v lo hi \<le> i \<and> i < length a \<longrightarrow> v \<le> a ! i)"
proof (induction a v lo hi rule: bisect_left.induct)
  case (1 a v lo hi)
  show ?case
  proof (cases "lo < hi")
    case False
    then have "bisect_left a v lo hi = lo" by (subst bisect_left.simps) simp
    moreover from False "1.prems" have "lo = hi" by simp
    ultimately show ?thesis using "1.prems" by simp
  next
    case True
    define mid where "mid = lo + (hi - lo) div 2"
    have m: "lo \<le> mid" "mid < hi" using True by (auto simp: mid_def)
    show ?thesis
    proof (cases "a ! mid < v")
      case lt: True
      have below: "\<forall>i<mid + 1. a ! i < v"
      proof (intro allI impI)
        fix i assume "i < mid + 1"
        then have "a ! i \<le> a ! mid"
          using "1.prems"(1,3) m by (auto simp: sorted_iff_nth_mono)
        with lt show "a ! i < v" by simp
      qed
      have "(\<forall>i<bisect_left a v (mid + 1) hi. a ! i < v) \<and>
            (\<forall>i. bisect_left a v (mid + 1) hi \<le> i \<and> i < length a \<longrightarrow> v \<le> a ! i)"
        using "1.IH"(1)[OF True mid_def lt "1.prems"(1) _ "1.prems"(3) below "1.prems"(5)] m
        by simp
      then show ?thesis using True lt
        by (simp add: bisect_left.simps[of a v lo hi] mid_def[symmetric] Let_def)
    next
      case ge: False
      have above: "\<forall>i. mid \<le> i \<and> i < length a \<longrightarrow> v \<le> a ! i"
      proof (intro allI impI)
        fix i assume "mid \<le> i \<and> i < length a"
        then have "a ! mid \<le> a ! i"
          using "1.prems"(1) by (auto simp: sorted_iff_nth_mono)
        with ge show "v \<le> a ! i" by simp
      qed
      have "(\<forall>i<bisect_left a v lo mid. a ! i < v) \<and>
            (\<forall>i. bisect_left a v lo mid \<le> i \<and> i < length a \<longrightarrow> v \<le> a ! i)"
        using "1.IH"(2)[OF True mid_def ge "1.prems"(1) _ _ "1.prems"(4) above] m "1.prems"(3)
        by simp
      then show ?thesis using True ge
        by (simp add: bisect_left.simps[of a v lo hi] mid_def[symmetric] Let_def)
    qed
  qed
qed

lemma searchsorted_le_length: "searchsorted a v \<le> length a"
  using bisect_left_bounds[of 0 "length a" a v] by (simp add: searchsorted_def)

lemma searchsorted_sorted:
  assumes "sorted a"
  shows "\<forall>i<searchsorted a v. a ! i < v"
    and "\<forall>i. searchsorted a v \<le> i \<and> i < length a \<longrightarrow> v \<le> a ! i"
proof -
  have "(\<forall>i<bisect_left a v 0 (length a). a ! i < v) \<and>
        (\<forall>i. bisect_left a v 0 (length a) \<le> i \<and> i < length a \<longrightarrow> v \<le> a ! i)"
    by (rule bisect_left_sorted[OF assms]) auto
  then show "\<forall>i<searchsorted a v. a ! i < v"
    and "\<forall>i. searchsorted a v \<le> i \<and> i < length a \<longrightarrow> v \<le> a ! i"
    by (simp_all add: searchsorted_def)
qed

lemma searchsorted_iff:
  assumes "sorted a"
  shows "searchsorted a v = i \<longleftrightarrow>
         i \<le> length a \<and> (0 < i \<longrightarrow> a ! (i - 1) < v) \<and> (i < length a \<longrightarrow> v \<le> a ! i)"
proof
  assume "searchsorted a v = i"
  then show "i \<le> length a \<and> (0 < i \<longrightarrow> a ! (i - 1) < v) \<and> (i < length a \<longrightarrow> v \<le> a ! i)"
    using searchsorted_le_length[of a v] searchsorted_sorted[OF assms, of v] by auto
next
  assume h: "i \<le> length a \<and> (0 < i \<longrightarrow> a ! (i - 1) < v) \<and> (i < length a \<longrightarrow> v \<le> a ! i)"
  let ?s = "searchsorted a v"
  have sl: "?s \<le> length a" by (rule searchsorted_le_length)
  have "\<not> ?s < i"
  proof
    assume lt: "?s < i"
    then have "?s \<le> i - 1 \<and> i - 1 < length a" using h by auto
    then have "v \<le> a ! (i - 1)" using searchsorted_sorted(2)[OF assms, of v] by blast
    moreover have "a ! (i - 1) < v" using h lt by auto
    ultimately show False by simp
  qed
  moreover have "\<not> i < ?s"
  proof
    assume lt: "i < ?s"
    then have "a ! i < v" using searchsorted_sorted(1)[OF assms, of v] by auto
    moreover have "v \<le> a ! i" using h lt sl by auto
    ultimately show False by simp
  qed
  ultimately show "?s = i" by simp
qed

subsection \<open>The constructed object and the partitioner\<close>

lemma init_constructed:
  "init endog0 order0 p delay0 thr0 fr maxd gs = Inr m \<Longrightarrow> constructed m"
  by (auto simp add: init_def constructed_def split: if_splits)

lemma init_fields:
  assumes "init endog0 order0 p delay0 thr0 fr maxd gs = Inr m"
  shows "endog m = endog0" "order m = order0" "ar_order m = p" "min_regime_frac m = fr"
    "delay m = delay0" "thresholds m = np_sort thr0" "threshold_grid_size m = gs"
    "max_delay m = (case maxd of Some d \<Rightarrow> d | None \<Rightarrow> int p)"
  using assms by (auto simp add: init_def split: if_splits)

lemma length_lagged_design: "length (lagged_design xs p) = length xs"
  by (simp add: lagged_design_def)

lemma lagged_design_row:
  "row \<in> set (lagged_design xs p) \<Longrightarrow> length row = p + 1 \<and> row ! 0 = 1"
  by (auto simp add: lagged_design_def)

lemma design_rows_drop: "design_rows m = drop (nobs_initial m) (exog m)"
  by (simp add: design_rows_def py_slice_from)

lemma length_rows: "constructed m \<Longrightarrow> length (design_rows m) = length (endog m) - ar_order m"
  by (simp add: design_rows_drop constructed_def length_lagged_design)

lemma rows_row:
  "constructed m \<Longrightarrow> r < length (design_rows m) \<Longrightarrow> length (design_rows m ! r) = ar_order m + 1 \<and> design_rows m ! r ! 0 = 1"
proof -
  assume c: "constructed m" and r: "r < length (design_rows m)"
  have "design_rows m ! r \<in> set (design_rows m)" using r by simp
  then have "design_rows m ! r \<in> set (exog m)" unfolding design_rows_drop by (rule in_set_dropD)
  then show ?thesis using c lagged_design_row by (simp add: constructed_def)
qed

lemma length_threshold_var:
  "constructed m \<Longrightarrow> 1 \<le> d \<Longrightarrow> d \<le> int (ar_order m)
     \<Longrightarrow> length (threshold_var m d) = length (endog m) - ar_order m"
  by (simp add: threshold_var_def constructed_def length_py_slice_lag)

lemma length_in_regime: "length (in_regime m d ts i) = length (threshold_var m d)"
  by (simp add: in_regime_def indicators_def)

lemma multiply_mask_rows:
  "constructed m \<Longrightarrow> 1 \<le> d \<Longrightarrow> d \<le> int (ar_order m) \<Longrightarrow>
   np_multiply_mask (design_rows m) (in_regime m d ts i)
     = Inr (map2 scale_row (design_rows m) (in_regime m d ts i))"
  by (simp add: np_multiply_mask_def length_in_regime length_threshold_var length_rows)


lemma regime_blocks_ok:
  assumes "constructed m" "1 \<le> d" "d \<le> int (ar_order m)"
  shows "(\<forall>j\<in>set js. \<not> too_few m d ts j) \<Longrightarrow>
         regime_blocks m d ts js = Inr (map (\<lambda>j. map2 scale_row (design_rows m) (in_regime m d ts j)) js)"
  by (induction js) (simp_all add: multiply_mask_rows[OF assms] too_few_def)

lemma regime_blocks_Inr_D:
  assumes "constructed m" "1 \<le> d" "d \<le> int (ar_order m)"
  shows "regime_blocks m d ts js = Inr blocks \<Longrightarrow>
         (\<forall>j\<in>set js. \<not> too_few m d ts j) \<and>
         blocks = map (\<lambda>j. map2 scale_row (design_rows m) (in_regime m d ts j)) js"
proof (induction js arbitrary: blocks)
  case Nil
  then show ?case by simp
next
  case (Cons j js)
  from Cons.prems have nl: "\<not> too_few m d ts j"
    by (auto simp add: too_few_def split: if_splits)
  from Cons.prems nl obtain blks where b: "regime_blocks m d ts js = Inr blks"
    "blocks = map2 scale_row (design_rows m) (in_regime m d ts j) # blks"
    by (auto simp add: too_few_def multiply_mask_rows[OF assms] split: sum.splits)
  from Cons.IH[OF b(1)] b(2) nl show ?case by simp
qed

lemma regime_blocks_Inr:
  assumes "constructed m" "1 \<le> d" "d \<le> int (ar_order m)"
  shows "regime_blocks m d ts js = Inr blocks \<longleftrightarrow>
         (\<forall>j\<in>set js. \<not> too_few m d ts j) \<and>
         blocks = map (\<lambda>j. map2 scale_row (design_rows m) (in_regime m d ts j)) js"
  using regime_blocks_ok[OF assms] regime_blocks_Inr_D[OF assms] by blast

lemma regime_blocks_Inl:
  assumes "constructed m" "1 \<le> d" "d \<le> int (ar_order m)"
  shows "regime_blocks m d ts js = Inl e \<longleftrightarrow>
         (\<exists>pre j post. js = pre @ j # post \<and> (\<forall>i\<in>set pre. \<not> too_few m d ts i) \<and> too_few m d ts j \<and>
            e = InvalidRegimeError j)"
proof (induction js)
  case Nil
  show ?case by simp
next
  case (Cons j js)
  show ?case
  proof (cases "too_few m d ts j")
    case True
    have "(\<exists>pre j' post. j # js = pre @ j' # post \<and> (\<forall>i\<in>set pre. \<not> too_few m d ts i) \<and> too_few m d ts j' \<and>
            e = InvalidRegimeError j') \<longleftrightarrow> e = InvalidRegimeError j"
    proof
      assume "\<exists>pre j' post. j # js = pre @ j' # post \<and> (\<forall>i\<in>set pre. \<not> too_few m d ts i) \<and> too_few m d ts j' \<and>
            e = InvalidRegimeError j'"
      then obtain pre j' post where h: "j # js = pre @ j' # post" "\<forall>i\<in>set pre. \<not> too_few m d ts i"
        "too_few m d ts j'" "e = InvalidRegimeError j'" by blast
      show "e = InvalidRegimeError j"
      proof (cases pre)
        case Nil with h show ?thesis by simp
      next
        case (Cons a as) with h True show ?thesis by auto
      qed
    next
      assume "e = InvalidRegimeError j"
      then show "\<exists>pre j' post. j # js = pre @ j' # post \<and> (\<forall>i\<in>set pre. \<not> too_few m d ts i) \<and> too_few m d ts j' \<and>
            e = InvalidRegimeError j'" using True by (intro exI[of _ "[]"] exI[of _ j] exI[of _ js]) simp
    qed
    moreover have "regime_blocks m d ts (j # js) = Inl e \<longleftrightarrow> e = InvalidRegimeError j"
      using True by (auto simp add: too_few_def)
    ultimately show ?thesis by simp
  next
    case False
    have a: "regime_blocks m d ts (j # js) = Inl e \<longleftrightarrow> regime_blocks m d ts js = Inl e"
      using False by (auto simp add: too_few_def multiply_mask_rows[OF assms] split: sum.splits)
    have b: "(\<exists>pre j' post. j # js = pre @ j' # post \<and> (\<forall>i\<in>set pre. \<not> too_few m d ts i) \<and> too_few m d ts j' \<and>
            e = InvalidRegimeError j') \<longleftrightarrow>
          (\<exists>pre j' post. js = pre @ j' # post \<and> (\<forall>i\<in>set pre. \<not> too_few m d ts i) \<and> too_few m d ts j' \<and>
            e = InvalidRegimeError j')" (is "?L \<longleftrightarrow> ?R")
    proof
      assume ?L
      then obtain pre j' post where h: "j # js = pre @ j' # post" "\<forall>i\<in>set pre. \<not> too_few m d ts i"
        "too_few m d ts j'" "e = InvalidRegimeError j'" by blast
      show ?R
      proof (cases pre)
        case Nil with h False show ?thesis by simp
      next
        case (Cons a as)
        with h have "js = as @ j' # post" "\<forall>i\<in>set as. \<not> too_few m d ts i" by auto
        with h show ?thesis by blast
      qed
    next
      assume ?R
      then obtain pre j' post where h: "js = pre @ j' # post" "\<forall>i\<in>set pre. \<not> too_few m d ts i"
        "too_few m d ts j'" "e = InvalidRegimeError j'" by blast
      then have "j # js = (j # pre) @ j' # post" "\<forall>i\<in>set (j # pre). \<not> too_few m d ts i"
        using False by auto
      with h show ?L by blast
    qed
    show ?thesis using a b Cons.IH by simp
  qed
qed

text \<open>The doubles \<^verbatim>\<open>0.1\<close> and \<^verbatim>\<open>0.28 * 25 = 7.000000000000001\<close>, and the ceilings of the
  products in the examples; in real arithmetic \<open>7 / 25 * 25\<close> is \<open>7\<close>, and ten times the
  double \<^verbatim>\<open>0.1\<close> is above \<open>1\<close>.\<close>

lemma round_double_tenth: "round_double (1 / 10) = 3602879701896397 / 36028797018963968"
  by code_simp

lemma double_mul_028_25:
  "double_mul (round_double (7 / 25)) 25 = 7881299347898369 / 1125899906842624"
  by code_simp

lemma real_ceiling_tenth_of_10: "\<lceil>round_double (1 / 10) * 10\<rceil> = 2"
  by code_simp

lemma ceil_tenth_of_10: "\<lceil>double_mul (round_double (1 / 10)) 10\<rceil> = 1"
  by code_simp

lemma ceil_tenth_of_8: "\<lceil>double_mul (round_double (1 / 10)) 8\<rceil> = 1"
  by code_simp

lemma ceil_three_tenths_of_8: "\<lceil>double_mul (round_double (3 / 10)) 8\<rceil> = 3"
  by code_simp

lemma ceil_028_of_25: "\<lceil>double_mul (round_double (7 / 25)) 25\<rceil> = 8"
  by code_simp

lemma init_model1: "init series1 2 2 None None (round_double (1 / 10)) None 100 = Inr model1"
  by (simp add: init_def py2_gt_def model1_def series1_def np_sort_def ceil_tenth_of_10)

lemma constructed_model1: "constructed model1"
  using init_model1 by (rule init_constructed)

lemma lagged1: "lagged_design series1 2 = 
  [[1, 0, 0], [1, 1, 0], [1, 3, 1], [1, 2, 3], [1, 5, 2], [1, 4, 5],
           [1, 7, 4], [1, 6, 7], [1, 9, 6], [1, 8, 9], [1, 11, 8],
           [1, 10, 11]]"
  by code_simp

lemma tv1: "threshold_var model1 2 = [1, 3, 2, 5, 4, 7, 6, 9, 8, 11]"
  by (simp add: threshold_var_def model1_def series1_def py_slice_def slice_bound_def)

subsection \<open>Construction\<close>

text \<open>Claim C8. With a delay supplied, the constructor raises the delay error exactly when
  \<open>delay < 1\<close> or \<open>delay > ar_order\<close>; a supplied delay in \<open>[1, ar_order]\<close> passes this
  check (the constructor then returns an object or fails a later check with another
  message).\<close>
theorem init_delay_validation:
  "init endog0 order0 p (Some d) thr0 fr maxd gs = Inl (ValueError delay_message)
     \<longleftrightarrow> d < 1 \<or> int p < d"
  by (auto simp add: init_def py2_gt_def delay_message_def max_delay_message_def
        thresholds_message_def)

text \<open>Claim C10. For strictly ascending thresholds, row \<open>r\<close> is assigned regime \<open>i\<close>
  exactly when its threshold-variable value lies in the left-open, right-closed interval
  \<open>(ts[i-1], ts[i]]\<close> (unbounded below for \<open>i = 0\<close>, above for \<open>i = len(ts)\<close>); a value equal
  to \<open>ts[k]\<close> is assigned regime \<open>k\<close>.\<close>
theorem regime_intervals:
  assumes "sorted_wrt (<) ts" and "r < length (threshold_var m d)"
  shows "(\<forall>i. indicators m d (map Some ts) ! r = i \<longleftrightarrow>
              i \<le> length ts \<and> (0 < i \<longrightarrow> ts ! (i - 1) < threshold_var m d ! r) \<and>
              (i < length ts \<longrightarrow> threshold_var m d ! r \<le> ts ! i)) \<and>
         (\<forall>k<length ts. threshold_var m d ! r = ts ! k \<longrightarrow> indicators m d (map Some ts) ! r = k)"
proof -
  let ?v = "threshold_var m d ! r"
  have st: "sorted ts" using assms(1) by (rule strict_sorted_imp_sorted)
  have s: "sorted (map Some ts)"
    using st by (simp add: sorted_iff_nth_mono)
  have ind: "indicators m d (map Some ts) ! r = searchsorted (map Some ts) (Some ?v)"
    using assms(2) by (simp add: indicators_def)
  have iff: "indicators m d (map Some ts) ! r = i \<longleftrightarrow>
              i \<le> length ts \<and> (0 < i \<longrightarrow> ts ! (i - 1) < ?v) \<and> (i < length ts \<longrightarrow> ?v \<le> ts ! i)" for i
  proof (cases "i \<le> length ts")
    case False
    then show ?thesis using searchsorted_le_length[of "map Some ts" "Some ?v"] ind by auto
  next
    case True
    have a: "0 < i \<Longrightarrow> (map Some ts ! (i - 1) < Some ?v) = (ts ! (i - 1) < ?v)"
      using True by simp
    have b: "i < length ts \<Longrightarrow> (Some ?v \<le> map Some ts ! i) = (?v \<le> ts ! i)"
      by simp
    show ?thesis unfolding ind searchsorted_iff[OF s] using True a b by auto
  qed
  have "indicators m d (map Some ts) ! r = k" if k: "k < length ts" and eq: "?v = ts ! k" for k
  proof -
    have "0 < k \<Longrightarrow> ts ! (k - 1) < ts ! k"
      using assms(1) k by (simp add: sorted_wrt_iff_nth_less)
    then show ?thesis using iff[of k] k eq by auto
  qed
  with iff show ?thesis by blast
qed

theorem regime_intervals_witness:
  "sorted_wrt (<) [5 :: real, 8] \<and> 3 < length (threshold_var model1 2) \<and>
   threshold_var model1 2 ! 3 = [5, 8] ! 0 \<and>
   indicators model1 2 (map Some [5, 8]) ! 3 = 0"
proof -
  have a: "sorted_wrt (<) [5 :: real, 8]" by simp
  have b: "3 < length (threshold_var model1 2)" by (simp add: tv1)
  have c: "threshold_var model1 2 ! 3 = [5, 8] ! 0" by (simp add: tv1)
  show ?thesis using regime_intervals[OF a b] a b c by simp
qed

subsection \<open>The partitioner raises exactly for a regime with too few observations\<close>

lemma upt_split_at:
  assumes "[0..<n] = pre @ j # post"
  shows "j < n \<and> pre = [0..<j]"
proof -
  have len: "length pre < n"
    using arg_cong[OF assms, of length] by simp
  have "[0..<n] ! length pre = j" using assms by simp
  then have j: "j = length pre" using len by simp
  have "pre = take (length pre) [0..<n]" using assms by simp
  also have "\<dots> = [0..<length pre]" using len by (simp add: take_upt)
  finally show ?thesis using j len by simp
qed

lemma build_datasets_snd: "snd (build_datasets m dly ts ordarg) = m"
  by (simp add: build_datasets_def Let_def split: option.splits sum.splits)

lemma np_concatenate1_not_invalid: "np_concatenate1 blocks \<noteq> Inl (InvalidRegimeError i)"
  by (simp add: np_concatenate1_def split: list.splits)

lemma build_datasets_invalid_iff:
  assumes "constructed m" "1 \<le> d" "d \<le> int (ar_order m)"
    and "ord = (case ordarg of None \<Rightarrow> order m | Some k \<Rightarrow> k)"
  shows "fst (build_datasets m (Some d) ts ordarg) = Inl (InvalidRegimeError i) \<longleftrightarrow>
         i < ord \<and> too_few m d ts i \<and> (\<forall>j<i. \<not> too_few m d ts j)"
proof -
  have eq: "fst (build_datasets m (Some d) ts ordarg) = Inl (InvalidRegimeError i) \<longleftrightarrow>
        regime_blocks m d ts [0..<ord] = Inl (InvalidRegimeError i)"
    using np_concatenate1_not_invalid
    by (auto simp add: build_datasets_def Let_def assms(4) split: sum.splits option.splits)
  have "regime_blocks m d ts [0..<ord] = Inl (InvalidRegimeError i) \<longleftrightarrow>
        i < ord \<and> too_few m d ts i \<and> (\<forall>j<i. \<not> too_few m d ts j)" (is "?L \<longleftrightarrow> ?R")
  proof
    assume ?L
    then have "\<exists>pre j post. [0..<ord] = pre @ j # post \<and> (\<forall>i\<in>set pre. \<not> too_few m d ts i) \<and>
        too_few m d ts j \<and> InvalidRegimeError i = InvalidRegimeError j"
      by (rule iffD1[OF regime_blocks_Inl[OF assms(1-3)]])
    then obtain pre where "\<exists>j post. [0..<ord] = pre @ j # post \<and> (\<forall>i\<in>set pre. \<not> too_few m d ts i) \<and>
        too_few m d ts j \<and> InvalidRegimeError i = InvalidRegimeError j" ..
    then obtain j where "\<exists>post. [0..<ord] = pre @ j # post \<and> (\<forall>i\<in>set pre. \<not> too_few m d ts i) \<and>
        too_few m d ts j \<and> InvalidRegimeError i = InvalidRegimeError j" ..
    then obtain post where h0: "[0..<ord] = pre @ j # post \<and> (\<forall>i\<in>set pre. \<not> too_few m d ts i) \<and>
        too_few m d ts j \<and> InvalidRegimeError i = InvalidRegimeError j" ..
    from h0 have h1: "[0..<ord] = pre @ j # post" by (rule conjunct1)
    have h2: "\<forall>i\<in>set pre. \<not> too_few m d ts i"
      by (rule conjunct1[OF conjunct2[OF h0]])
    have h3: "too_few m d ts j"
      by (rule conjunct1[OF conjunct2[OF conjunct2[OF h0]]])
    have "InvalidRegimeError i = InvalidRegimeError j"
      by (rule conjunct2[OF conjunct2[OF conjunct2[OF h0]]])
    then have h4: "i = j" by simp
    have u: "j < ord" "pre = [0..<j]"
      using upt_split_at[OF h1] by (rule conjunct1, rule conjunct2)
    have "\<forall>k<j. \<not> too_few m d ts k"
    proof (intro allI impI)
      fix k assume "k < j"
      then have "k \<in> set pre" by (subst u(2)) simp
      with h2 show "\<not> too_few m d ts k" by (rule bspec)
    qed
    with h3 h4 u(1) show ?R by simp
  next
    assume r: ?R
    then have "[0..<ord] = [0..<i] @ i # [Suc i..<ord]"
      by (metis le_add2 le_add_same_cancel2 less_imp_add_positive upt_add_eq_append upt_conv_Cons)
    moreover have "\<forall>j\<in>set [0..<i]. \<not> too_few m d ts j" using r by simp
    ultimately have "\<exists>pre j post. [0..<ord] = pre @ j # post \<and> (\<forall>i\<in>set pre. \<not> too_few m d ts i) \<and>
        too_few m d ts j \<and> InvalidRegimeError i = InvalidRegimeError j"
      using r by (intro exI[of _ "[0..<i]"] exI[of _ i] exI[of _ "[Suc i..<ord]"]) simp
    then show ?L by (rule iffD2[OF regime_blocks_Inl[OF assms(1-3)]])
  qed
  with eq show ?thesis by simp
qed

text \<open>Claim C4. For a delay in \<open>[1, ar_order]\<close> and a sorted threshold sequence of length
  \<open>order - 1\<close>, \<^verbatim>\<open>build_datasets\<close> raises \<^verbatim>\<open>InvalidRegimeError\<close> if and only if some
  regime among \<open>0 .. order - 1\<close> holds fewer than \<open>ceil(min_regime_frac * nobs)\<close>
  observations, \<open>nobs = len(endog) - ar_order\<close> and the product being the double product of
  the constructor; the error names such a regime, and the object after the call is the
  object before it.\<close>
theorem build_datasets_invalid_regime:
  assumes "constructed m" and "1 \<le> d" and "d \<le> int (ar_order m)"
    and "sorted ts" and "length ts + 1 = ord"
    and "ord = (case ordarg of None \<Rightarrow> order m | Some k \<Rightarrow> k)"
  shows "((\<exists>i. fst (build_datasets m (Some d) ts ordarg) = Inl (InvalidRegimeError i)) \<longleftrightarrow>
          (\<exists>i<ord. mask_sum (in_regime m d ts i)
                    < \<lceil>double_mul (min_regime_frac m)
                        (real_of_int (int (length (endog m)) - int (ar_order m)))\<rceil>)) \<and>
         (\<forall>i. fst (build_datasets m (Some d) ts ordarg) = Inl (InvalidRegimeError i) \<longrightarrow>
              i < ord \<and>
              mask_sum (in_regime m d ts i)
                < \<lceil>double_mul (min_regime_frac m)
                        (real_of_int (int (length (endog m)) - int (ar_order m)))\<rceil>) \<and>
         snd (build_datasets m (Some d) ts ordarg) = m"
proof -
  have tf: "too_few m d ts i \<longleftrightarrow> mask_sum (in_regime m d ts i)
                < \<lceil>double_mul (min_regime_frac m)
                        (real_of_int (int (length (endog m)) - int (ar_order m)))\<rceil>" for i
    using assms(1) by (simp add: too_few_def constructed_def)
  note iff = build_datasets_invalid_iff[OF assms(1-3) assms(6)]
  have a: "(\<exists>i. fst (build_datasets m (Some d) ts ordarg) = Inl (InvalidRegimeError i)) \<longleftrightarrow>
           (\<exists>i<ord. too_few m d ts i)"
  proof
    assume "\<exists>i. fst (build_datasets m (Some d) ts ordarg) = Inl (InvalidRegimeError i)"
    then show "\<exists>i<ord. too_few m d ts i" using iff by blast
  next
    assume "\<exists>i<ord. too_few m d ts i"
    then obtain i where i: "i < ord \<and> too_few m d ts i" by blast
    define k where "k = (LEAST i. i < ord \<and> too_few m d ts i)"
    have k1: "k < ord \<and> too_few m d ts k" unfolding k_def using i by (rule LeastI)
    have k2: "\<forall>j<k. \<not> (j < ord \<and> too_few m d ts j)"
      unfolding k_def using not_less_Least by blast
    have "fst (build_datasets m (Some d) ts ordarg) = Inl (InvalidRegimeError k)"
      unfolding iff using k1 k2 by auto
    then show "\<exists>i. fst (build_datasets m (Some d) ts ordarg) = Inl (InvalidRegimeError i)" ..
  qed
  show ?thesis using a iff build_datasets_snd[of m "Some d" ts ordarg] by (simp add: tf)
qed

lemma init_model2: "init series2 2 2 None None (round_double (7 / 25)) None 100 = Inr model2"
  by (simp add: init_def py2_gt_def model2_def series2_def np_sort_def ceil_028_of_25)

lemma constructed_model2: "constructed model2"
  using init_model2 by (rule init_constructed)

theorem build_datasets_invalid_regime_witness:
  "constructed model2 \<and> (1 :: int) \<le> 1 \<and> (1 :: int) \<le> int (ar_order model2) \<and>
   sorted [Some (8 :: real)] \<and> length [Some (8 :: real)] + 1 = 2 \<and>
   (2 :: nat) = (case None of None \<Rightarrow> order model2 | Some k \<Rightarrow> k) \<and>
   ((\<exists>i. fst (build_datasets model2 (Some 1) [Some 8] None) = Inl (InvalidRegimeError i)) \<longleftrightarrow>
    (\<exists>i<2. mask_sum (in_regime model2 1 [Some 8] i)
              < \<lceil>double_mul (min_regime_frac model2)
                        (real_of_int (int (length (endog model2)) - int (ar_order model2)))\<rceil>)) \<and>
   fst (build_datasets model2 (Some 1) [Some 8] None) = Inl (InvalidRegimeError 0) \<and>
   mask_sum (in_regime model2 1 [Some 8] 0) = 7 \<and>
   \<lceil>double_mul (min_regime_frac model2)
       (real_of_int (int (length (endog model2)) - int (ar_order model2)))\<rceil> = 8 \<and>
   snd (build_datasets model2 (Some 1) [Some 8] None) = model2"
proof -
  have h1: "(1 :: int) \<le> 1" by simp
  have h2: "(1 :: int) \<le> int (ar_order model2)" by (simp add: model2_def)
  have h3: "sorted [Some (8 :: real)]" by simp
  have h4: "length [Some (8 :: real)] + 1 = 2" by simp
  have h5: "(2 :: nat) = (case None of None \<Rightarrow> order model2 | Some k \<Rightarrow> k)"
    by (simp add: model2_def)
  have ev: "fst (build_datasets model2 (Some 1) [Some 8] None) = Inl (InvalidRegimeError 0)"
    by code_simp
  have cnt: "mask_sum (in_regime model2 1 [Some 8] 0) = 7"
    by code_simp
  have bound: "\<lceil>double_mul (min_regime_frac model2)
       (real_of_int (int (length (endog model2)) - int (ar_order model2)))\<rceil> = 8"
    by (simp add: model2_def series2_def ceil_028_of_25)
  show ?thesis
    using build_datasets_invalid_regime[OF constructed_model2 h1 h2 h3 h4 h5]
      constructed_model2 h2 h5 ev cnt bound by simp
qed

lemma scale_row_True: "scale_row row True = row"
  by (simp add: scale_row_def)

lemma scale_row_False: "scale_row row False = replicate (length row) 0"
  by (simp add: scale_row_def map_replicate_const)

lemma build_datasets_Inr:
  assumes "constructed m" "1 \<le> d" "d \<le> int (ar_order m)"
    and "ord = (case ordarg of None \<Rightarrow> order m | Some k \<Rightarrow> k)"
    and "fst (build_datasets m (Some d) ts ordarg) = Inr (y, X)"
  shows "0 < ord" and "\<forall>j<ord. \<not> too_few m d ts j"
    and "y = drop (ar_order m) (endog m)"
    and "X = map (\<lambda>r. concat (map (\<lambda>j. scale_row (design_rows m ! r) (in_regime m d ts j ! r)) [0..<ord]))
               [0..<length (design_rows m)]"
proof -
  from assms(5) obtain blocks where b: "regime_blocks m d ts [0..<ord] = Inr blocks"
    and c: "np_concatenate1 blocks = Inr X" and y: "y = py_slice (Some (int (nobs_initial m))) None (endog m)"
    by (auto simp add: build_datasets_def Let_def assms(4) split: sum.splits)
  from y assms(1) show "y = drop (ar_order m) (endog m)"
    by (simp add: py_slice_from constructed_def)
  from regime_blocks_Inr_D[OF assms(1-3) b]
  have nf: "\<forall>j\<in>set [0..<ord]. \<not> too_few m d ts j"
    and bl: "blocks = map (\<lambda>j. map2 scale_row (design_rows m) (in_regime m d ts j)) [0..<ord]"
    by simp_all
  from nf show "\<forall>j<ord. \<not> too_few m d ts j" by simp
  from c have ne: "blocks \<noteq> []" by (auto simp add: np_concatenate1_def)
  with bl show pos: "0 < ord" by simp
  have len: "length (in_regime m d ts j) = length (design_rows m)" for j
    using assms(1-3) by (simp add: length_in_regime length_threshold_var length_rows)
  have hd: "length (hd blocks) = length (design_rows m)"
    using pos bl len by (simp add: hd_map upt_conv_Cons)
  from c ne have "X = map (\<lambda>r. concat (map (\<lambda>blk. blk ! r) blocks)) [0..<length (hd blocks)]"
    by (cases blocks) (simp_all add: np_concatenate1_def)
  also have "\<dots> = map (\<lambda>r. concat (map (\<lambda>j. scale_row (design_rows m ! r) (in_regime m d ts j ! r)) [0..<ord]))
               [0..<length (design_rows m)]"
    unfolding hd by (rule map_cong) (simp_all add: bl len comp_def)
  finally show "X = map (\<lambda>r. concat (map (\<lambda>j. scale_row (design_rows m ! r) (in_regime m d ts j ! r)) [0..<ord]))
               [0..<length (design_rows m)]" .
qed

text \<open>Claim C5. For a delay in \<open>[1, ar_order]\<close>, strictly ascending thresholds and
  \<open>order = len(thresholds) + 1 \<ge> 2\<close>, the partitioned design has one row per aligned
  observation; every row belongs to exactly one regime mask, and the row is the row of the
  lagged design in that regime's block and zero in every other block.\<close>
theorem partition_exclusive_exhaustive:
  assumes "constructed m" and "1 \<le> d" and "d \<le> int (ar_order m)"
    and "sorted_wrt (<) ts" and "ord = length ts + 1" and "2 \<le> ord"
    and "fst (build_datasets m (Some d) (map Some ts) (Some ord)) = Inr (y, X)"
  shows "length X = length (design_rows m) \<and>
         (\<forall>r<length X.
            (\<exists>!i. i < ord \<and> in_regime m d (map Some ts) i ! r) \<and>
            X ! r = concat (map (\<lambda>i. if in_regime m d (map Some ts) i ! r then design_rows m ! r
                                       else replicate (ar_order m + 1) 0) [0..<ord]))"
proof -
  let ?ts = "map Some ts"
  have o: "ord = (case Some ord of None \<Rightarrow> order m | Some k \<Rightarrow> k)" by simp
  note X = build_datasets_Inr(4)[OF assms(1-3) o assms(7)]
  have lenX: "length X = length (design_rows m)" by (subst X) simp
  have row: "(\<exists>!i. i < ord \<and> in_regime m d ?ts i ! r) \<and>
            X ! r = concat (map (\<lambda>i. if in_regime m d ?ts i ! r then design_rows m ! r
                                       else replicate (ar_order m + 1) 0) [0..<ord])"
    if r: "r < length X" for r
  proof
    have rl: "r < length (threshold_var m d)"
      using r lenX assms(1-3) by (simp add: length_threshold_var length_rows)
    have ind: "indicators m d ?ts ! r < ord"
      using rl searchsorted_le_length[of ?ts "Some (threshold_var m d ! r)"] assms(5)
      by (simp add: indicators_def)
    have reg: "in_regime m d ?ts i ! r \<longleftrightarrow> indicators m d ?ts ! r = i" for i
      using rl by (simp add: in_regime_def indicators_def)
    show "\<exists>!i. i < ord \<and> in_regime m d ?ts i ! r"
      unfolding reg using ind by blast
    have rr: "r < length (design_rows m)" using r lenX by simp
    have sr: "scale_row (design_rows m ! r) b =
              (if b then design_rows m ! r else replicate (ar_order m + 1) 0)" for b
      using rows_row[OF assms(1) rr] by (simp add: scale_row_True scale_row_False)
    show "X ! r = concat (map (\<lambda>i. if in_regime m d ?ts i ! r then design_rows m ! r
                                       else replicate (ar_order m + 1) 0) [0..<ord])"
      by (subst X) (simp add: rr sr)
  qed
  show ?thesis using lenX row by blast
qed

theorem partition_exclusive_exhaustive_witness:
  "constructed model1 \<and> (1 :: int) \<le> 2 \<and> (2 :: int) \<le> int (ar_order model1) \<and>
   sorted_wrt (<) [5 :: real] \<and> (2 :: nat) = length [5 :: real] + 1 \<and> (2 :: nat) \<le> 2 \<and>
   fst (build_datasets model1 (Some 2) (map Some [5]) (Some 2)) =
     Inr (drop 2 series1,
          [[1, 3, 1, 0, 0, 0], [1, 2, 3, 0, 0, 0], [1, 5, 2, 0, 0, 0], [1, 4, 5, 0, 0, 0],
           [1, 7, 4, 0, 0, 0], [0, 0, 0, 1, 6, 7], [0, 0, 0, 1, 9, 6], [0, 0, 0, 1, 8, 9],
           [0, 0, 0, 1, 11, 8], [0, 0, 0, 1, 10, 11]]) \<and>
   length [[1, 3, 1, 0, 0, 0], [1, 2, 3, 0, 0, 0], [1, 5, 2, 0, 0, 0], [1, 4, 5, 0, 0, 0],
           [1, 7, 4, 0, 0, 0], [0, 0, 0, 1, 6, 7], [0, 0, 0, 1, 9, 6], [0, 0, 0, 1, 8, 9],
           [0, 0, 0, 1, 11, 8], [0, 0, 0, 1, 10, 11 :: real]] = length (design_rows model1) \<and>
   (\<exists>!i. i < 2 \<and> in_regime model1 2 (map Some [5]) i ! 7)"
proof -
  have h1: "(1 :: int) \<le> 2" by simp
  have h2: "(2 :: int) \<le> int (ar_order model1)" by (simp add: model1_def)
  have h3: "sorted_wrt (<) [5 :: real]" by simp
  have h4: "(2 :: nat) = length [5 :: real] + 1" by simp
  have h5: "(2 :: nat) \<le> 2" by simp
  have ev: "fst (build_datasets model1 (Some 2) (map Some [5]) (Some 2)) =
     Inr (drop 2 series1,
          [[1, 3, 1, 0, 0, 0], [1, 2, 3, 0, 0, 0], [1, 5, 2, 0, 0, 0], [1, 4, 5, 0, 0, 0],
           [1, 7, 4, 0, 0, 0], [0, 0, 0, 1, 6, 7], [0, 0, 0, 1, 9, 6], [0, 0, 0, 1, 8, 9],
           [0, 0, 0, 1, 11, 8], [0, 0, 0, 1, 10, 11]])"
    by code_simp
  from partition_exclusive_exhaustive[OF constructed_model1 h1 h2 h3 h4 h5 ev]
  show ?thesis using constructed_model1 h2 ev by simp
qed

subsection \<open>The refinement loop\<close>












subsection \<open>The search on an example\<close>

text \<open>Evaluation of the matrix operations on literal matrices, and the search on
  \<open>series3\<close> step by step: the design, its Gram matrix and the baseline residuals, then
  each candidate threshold of the grid.\<close>

lemma init_model3: "init series3 2 2 None None (round_double (3 / 10)) None 100 = Inr model3"
  by (simp add: init_def model3_def py2_gt_def np_sort_def series3_def ceil_three_tenths_of_8)

lemma upt_0_numeral: "[0..<numeral n] = 0 # [Suc 0..<numeral n]"
  by (simp add: upt_rec)

lemma upt_1_numeral:
  "[Suc 0..<numeral n] = (if Suc 0 < numeral n then Suc 0 # [2..<numeral n] else [])"
  by (subst upt_rec) (simp add: numeral_2_eq_2)

lemma dotp_Cons: "dotp (x # xs) (y # ys) = x * y + dotp xs ys"
  by (simp add: dotp_def)

lemma dotp_Nil: "dotp [] ys = 0" "dotp xs [] = 0"
  by (simp_all add: dotp_def)

lemma col_Cons: "col (row # A) j = row ! j # col A j"
  by (simp add: col_def)

lemma col_Nil: "col [] j = []"
  by (simp add: col_def)

lemmas matrix_eval = upt_0_numeral upt_1_numeral dotp_Cons dotp_Nil col_Cons col_Nil
  mat_mul_def transp_def vec_mat_def mat_vec_def vec_sub_def mat_sub_def identity_mat_def Let_def

lemma design_rows_model3: "design_rows model3 = [[1, 3, 1], [1, 2, 3], [1, 5, 2], [1, 4, 5], [1,
    7, 4], [1, 6, 7], [1, 9, 6], [1, 8, 9]]"
  by code_simp

lemma gram_model3: "gram 3 [[1, 3, 1], [1, 2, 3], [1, 5, 2], [1, 4, 5], [1, 7, 4], [1, 6, 7],
    [1, 9, 6], [1, 8, 9]] = [[8, 44, 37], [44, 284, 235], [37, 235, 221]]"
  by (simp add: gram_def matrix_eval)

lemma inverse_gram_model3: "gauss_jordan_inv [[8, 44, 37], [44, 284, 235], [37, 235, 221]] =
    Some baseline_inverse3"
  by (simp add: gauss_jordan_inv_def matrix_eval baseline_inverse3_def)

lemma resids_model3: "baseline_resids 3 [2, 5, 4, 7, 6, 9, 8, 10] [[1, 3, 1], [1, 2, 3], [1, 5,
    2], [1, 4, 5], [1, 7, 4], [1, 6, 7], [1, 9, 6], [1, 8, 9]] baseline_inverse3 =
    baseline_resids3"
  by (simp add: baseline_resids_def matrix_eval baseline_inverse3_def baseline_resids3_def)

lemma build_model3_4: "fst (build_datasets model3 (Some 2) [Some 4] (Some 2)) = Inr ([2, 5, 4,
    7, 6, 9, 8, 10], [[1, 3, 1, 0, 0, 0], [1, 2, 3, 0, 0, 0], [1, 5, 2, 0, 0, 0], [0, 0, 0, 1,
    4, 5], [1, 7, 4, 0, 0, 0], [0, 0, 0, 1, 6, 7], [0, 0, 0, 1, 9, 6], [0, 0, 0, 1, 8, 9]])"
  by code_simp

lemma incremental_model3_4: "incremental_design 3 [[1, 3, 1, 0, 0, 0], [1, 2, 3, 0, 0, 0], [1,
    5, 2, 0, 0, 0], [0, 0, 0, 1, 4, 5], [1, 7, 4, 0, 0, 0], [0, 0, 0, 1, 6, 7], [0, 0, 0, 1, 9,
    6], [0, 0, 0, 1, 8, 9]] = [[1, 3, 1], [1, 2, 3], [1, 5, 2], [0, 0, 0], [1, 7, 4], [0, 0, 0],
    [0, 0, 0], [0, 0, 0]]"
  by (simp add: incremental_design_def py_slice_def slice_bound_def)

lemma inner_model3_4: "inner_matrix 3 3 [[1, 3, 1], [1, 2, 3], [1, 5, 2], [0, 0, 0], [1, 7, 4],
    [0, 0, 0], [0, 0, 0], [0, 0, 0]] [[1, 3, 1], [1, 2, 3], [1, 5, 2], [1, 4, 5], [1, 7, 4], [1,
    6, 7], [1, 9, 6], [1, 8, 9]] baseline_inverse3 = [[229 / 420, 101 / 35, 307 / 140], [101 /
    35, 2374 / 105, 211 / 15], [307 / 140, 211 / 15, 5029 / 420]]"
  by (simp add: inner_matrix_def matrix_eval baseline_inverse3_def)

lemma inverse_model3_4: "gauss_jordan_inv [[229 / 420, 101 / 35, 307 / 140], [101 / 35, 2374 /
    105, 211 / 15], [307 / 140, 211 / 15, 5029 / 420]] = Some [[107091 / 13696, - (5449 /
    13696), - (13211 / 13696)], [- (5449 / 13696), 7585 / 41088, - (5917 / 41088)], [- (13211 /
    13696), - (5917 / 41088), 17641 / 41088]]"
  by (simp add: gauss_jordan_inv_def matrix_eval)

lemma quadratic_model3_4: "quadratic_form 3 baseline_resids3 [[1, 3, 1], [1, 2, 3], [1, 5, 2],
    [0, 0, 0], [1, 7, 4], [0, 0, 0], [0, 0, 0], [0, 0, 0]] [[107091 / 13696, - (5449 / 13696), -
    (13211 / 13696)], [- (5449 / 13696), 7585 / 41088, - (5917 / 41088)], [- (13211 / 13696), -
    (5917 / 41088), 17641 / 41088]] = 45517 / 44940"
  by (simp add: quadratic_form_def matrix_eval baseline_resids3_def)

lemma build_model3_5: "fst (build_datasets model3 (Some 2) [Some 5] (Some 2)) = Inr ([2, 5, 4,
    7, 6, 9, 8, 10], [[1, 3, 1, 0, 0, 0], [1, 2, 3, 0, 0, 0], [1, 5, 2, 0, 0, 0], [1, 4, 5, 0,
    0, 0], [1, 7, 4, 0, 0, 0], [0, 0, 0, 1, 6, 7], [0, 0, 0, 1, 9, 6], [0, 0, 0, 1, 8, 9]])"
  by code_simp

lemma incremental_model3_5: "incremental_design 3 [[1, 3, 1, 0, 0, 0], [1, 2, 3, 0, 0, 0], [1,
    5, 2, 0, 0, 0], [1, 4, 5, 0, 0, 0], [1, 7, 4, 0, 0, 0], [0, 0, 0, 1, 6, 7], [0, 0, 0, 1, 9,
    6], [0, 0, 0, 1, 8, 9]] = [[1, 3, 1], [1, 2, 3], [1, 5, 2], [1, 4, 5], [1, 7, 4], [0, 0, 0],
    [0, 0, 0], [0, 0, 0]]"
  by (simp add: incremental_design_def py_slice_def slice_bound_def)

lemma inner_model3_5: "inner_matrix 3 3 [[1, 3, 1], [1, 2, 3], [1, 5, 2], [1, 4, 5], [1, 7, 4],
    [0, 0, 0], [0, 0, 0], [0, 0, 0]] [[1, 3, 1], [1, 2, 3], [1, 5, 2], [1, 4, 5], [1, 7, 4], [1,
    6, 7], [1, 9, 6], [1, 8, 9]] baseline_inverse3 = [[7 / 15, 118 / 35, 101 / 35], [118 / 35,
    2914 / 105, 2188 / 105], [101 / 35, 2188 / 105, 313 / 15]]"
  by (simp add: inner_matrix_def matrix_eval baseline_inverse3_def)

lemma inverse_model3_5: "gauss_jordan_inv [[7 / 15, 118 / 35, 101 / 35], [118 / 35, 2914 / 105,
    2188 / 105], [101 / 35, 2188 / 105, 313 / 15]] = Some [[53241 / 1760, - (751 / 352), - (3613
    / 1760)], [- (751 / 352), 311 / 1056, 1 / 1056], [- (3613 / 1760), 1 / 1056, 1747 / 5280]]"
  by (simp add: gauss_jordan_inv_def matrix_eval)

lemma quadratic_model3_5: "quadratic_form 3 baseline_resids3 [[1, 3, 1], [1, 2, 3], [1, 5, 2],
    [1, 4, 5], [1, 7, 4], [0, 0, 0], [0, 0, 0], [0, 0, 0]] [[53241 / 1760, - (751 / 352), -
    (3613 / 1760)], [- (751 / 352), 311 / 1056, 1 / 1056], [- (3613 / 1760), 1 / 1056, 1747 /
    5280]] = 5039 / 4620"
  by (simp add: quadratic_form_def matrix_eval baseline_resids3_def)

lemma model3_fields: "ar_order model3 = 2" "nobs_initial model3 = 2" "endog model3 = series3"
  "min_regime_num model3 = 3" "max_delay model3 = 2" "threshold_grid_size model3 = 100"
  "order model3 = 2" "delay model3 = None" "thresholds model3 = Array0d"
  by (simp_all add: model3_def)

lemma objective_model3_4:
"grid_search_objective gauss_jordan_inv model3 (Some 2) [Some 4] baseline_inverse3
    baseline_resids3 = Inr (45517 / 44940)"
by (simp add: grid_search_objective_def build_model3_4[unfolded numeral_2_eq_2] model3_fields
    design_rows_model3
        incremental_model3_4 inner_model3_4 inverse_model3_4 quadratic_model3_4)

lemma objective_model3_5:
"grid_search_objective gauss_jordan_inv model3 (Some 2) [Some 5] baseline_inverse3
    baseline_resids3 = Inr (5039 / 4620)"
by (simp add: grid_search_objective_def build_model3_5[unfolded numeral_2_eq_2] model3_fields
    design_rows_model3
        incremental_model3_5 inner_model3_5 inverse_model3_5 quadratic_model3_5)

lemma grid_model3: "threshold_grid model3 100 (Some 2) = Inr [4, 5]"
  by code_simp

lemma search_grid_model3:
"select_hyperparameters_grid gauss_jordan_inv model3 [] 100 baseline_inverse3 baseline_resids3
    None
     = Inr ((Some 2, Some 5), 5039 / 4620)"
  by (simp add: select_hyperparameters_grid_def model3_fields grid_model3
        objective_model3_4 objective_model3_5)

lemma response_model3: "py_slice (Some 2) None series3 = [2, 5, 4, 7, 6, 9, 8, 10]"
  by (simp add: py_slice_def slice_bound_def series3_def)

lemma select_model3:
  "select_hyperparameters gauss_jordan_inv model3 = Inr ((Some 2, [Some 5]), [])"
  by (simp add: select_hyperparameters_def model3_fields design_rows_model3 gram_model3
       inverse_gram_model3 response_model3 resids_model3 search_grid_model3)

text \<open>The search on \<open>series4\<close>: the first candidate of the grid is the
    threshold \<open>-2\<close>,
whose lower regime holds the two rows that follow \<open>-3\<close> and \<open>-2\<close>; their
    first lag is
  \<open>0\<close>, so the matrix to invert has a zero row and column.\<close>

lemma init_model4: "init series4 2 2 None None (round_double (1 / 10)) None 100 = Inr model4"
  by (simp add: init_def model4_def py2_gt_def np_sort_def series4_def ceil_tenth_of_8)

lemma model4_fields: "ar_order model4 = 2" "nobs_initial model4 = 2" "endog model4 = series4"
  "min_regime_num model4 = 1" "max_delay model4 = 2" "threshold_grid_size model4 = 100"
  "order model4 = 2" "delay model4 = None" "thresholds model4 = Array0d"
  by (simp_all add: model4_def)

lemma design_rows_model4: "design_rows model4 = [[1, 0, - 3], [1, 5, 0], [1, - 2, 5], [1, 0, -
    2], [1, 6, 0], [1, - 1, 6], [1, 0, - 1], [1, 7, 0]]"
  by code_simp

lemma response_model4: "py_slice (Some 2) None series4 = [5, - 2, 0, 6, - 1, 0, 7, 4]"
  by (simp add: py_slice_def slice_bound_def series4_def)

lemma gram_model4: "gram 3 [[1, 0, - 3], [1, 5, 0], [1, - 2, 5], [1, 0, - 2], [1, 6, 0], [1, -
    1, 6], [1, 0, - 1], [1, 7, 0]] = [[8, 15, 5], [15, 115, - 16], [5, - 16, 75]]"
  by (simp add: gram_def matrix_eval)

lemma inverse_gram_model4: "gauss_jordan_inv [[8, 15, 5], [15, 115, - 16], [5, - 16, 75]] = Some
    baseline_inverse4"
  by (simp add: gauss_jordan_inv_def matrix_eval baseline_inverse4_def)

lemma resids_model4: "baseline_resids 3 [5, - 2, 0, 6, - 1, 0, 7, 4] [[1, 0, - 3], [1, 5, 0],
    [1, - 2, 5], [1, 0, - 2], [1, 6, 0], [1, - 1, 6], [1, 0, - 1], [1, 7, 0]] baseline_inverse4
    = baseline_resids4"
  by (simp add: baseline_resids_def matrix_eval baseline_inverse4_def baseline_resids4_def)

lemma grid_model4: "threshold_grid model4 100 (Some 2) = Inr [- 2, - 1, 0, 5]"
  by code_simp

lemma build_model4_neg2: "fst (build_datasets model4 (Some 2) [Some (- 2)] (Some 2)) = Inr ([5,
    - 2, 0, 6, - 1, 0, 7, 4], [[1, 0, - 3, 0, 0, 0], [0, 0, 0, 1, 5, 0], [0, 0, 0, 1, - 2, 5],
    [1, 0, - 2, 0, 0, 0], [0, 0, 0, 1, 6, 0], [0, 0, 0, 1, - 1, 6], [0, 0, 0, 1, 0, - 1], [0, 0,
    0, 1, 7, 0]])"
  by code_simp

lemma incremental_model4_neg2: "incremental_design 3 [[1, 0, - 3, 0, 0, 0], [0, 0, 0, 1, 5, 0],
    [0, 0, 0, 1, - 2, 5], [1, 0, - 2, 0, 0, 0], [0, 0, 0, 1, 6, 0], [0, 0, 0, 1, - 1, 6], [0, 0,
    0, 1, 0, - 1], [0, 0, 0, 1, 7, 0]] = [[1, 0, - 3], [0, 0, 0], [0, 0, 0], [1, 0, - 2], [0, 0,
    0], [0, 0, 0], [0, 0, 0], [0, 0, 0]]"
  by (simp add: incremental_design_def py_slice_def slice_bound_def)

lemma inner_model4_neg2: "inner_matrix 3 3 [[1, 0, - 3], [0, 0, 0], [0, 0, 0], [1, 0, - 2], [0,
    0, 0], [0, 0, 0], [0, 0, 0], [0, 0, 0]] [[1, 0, - 3], [1, 5, 0], [1, - 2, 5], [1, 0, - 2],
    [1, 6, 0], [1, - 1, 6], [1, 0, - 1], [1, 7, 0]] baseline_inverse4 = [[22453 / 44802, 0, -
    (470 / 393)], [0, 0, 0], [- (470 / 393), 0, 438 / 131]]"
  by (simp add: inner_matrix_def matrix_eval baseline_inverse4_def)

lemma inverse_model4_neg2: "gauss_jordan_inv [[22453 / 44802, 0, - (470 / 393)], [0, 0, 0], [-
    (470 / 393), 0, 438 / 131]] = None"
  by (simp add: gauss_jordan_inv_def matrix_eval)

lemma objective_model4_neg2:
  "grid_search_objective gauss_jordan_inv model4 (Some 2) [Some (- 2)] baseline_inverse4
     baseline_resids4 = Inl LinAlgError"
  by (simp add: grid_search_objective_def build_model4_neg2[unfolded numeral_2_eq_2]
        model4_fields design_rows_model4 incremental_model4_neg2 inner_model4_neg2
        inverse_model4_neg2)

lemma search_grid_model4:
  "select_hyperparameters_grid gauss_jordan_inv model4 [] 100 baseline_inverse4 baseline_resids4
     None = Inl LinAlgError"
  by (simp add: select_hyperparameters_grid_def model4_fields grid_model4 objective_model4_neg2)

lemma select_model4:
  "select_hyperparameters gauss_jordan_inv model4 = Inl LinAlgError"
  by (simp add: select_hyperparameters_def model4_fields design_rows_model4 gram_model4
       inverse_gram_model4 response_model4 resids_model4 search_grid_model4)

subsection \<open>The grid search returns the first maximum\<close>

lemma first_maximum_Nil: "first_maximum f [] st st"
  by (simp add: first_maximum_def)

lemma first_maximum_append:
  assumes "first_maximum f xs st0 st1" and "first_maximum f ys st1 st2"
  shows "first_maximum f (xs @ ys) st0 st2"
proof -
  have ok: "\<forall>c\<in>set (xs @ ys). skipped (f c) \<or> (\<exists>v. f c = Inr v)"
    using assms by (auto simp add: first_maximum_def)
  from assms(1) consider
    (a) "st1 = st0" "\<forall>c\<in>set xs. \<forall>v. f c = Inr v \<longrightarrow> v \<le> snd st0"
  | (b) pre c post where "xs = pre @ c # post" "fst st1 = (fst c, Some (snd c))"
      "f c = Inr (snd st1)" "snd st0 < snd st1"
      "\<forall>b\<in>set pre. \<forall>v. f b = Inr v \<longrightarrow> v < snd st1"
      "\<forall>b\<in>set post. \<forall>v. f b = Inr v \<longrightarrow> v \<le> snd st1"
    unfolding first_maximum_def by blast
  then show ?thesis
  proof cases
    case a
    from assms(2) consider
      (c) "st2 = st1" "\<forall>c\<in>set ys. \<forall>v. f c = Inr v \<longrightarrow> v \<le> snd st1"
    | (d) pre c post where "ys = pre @ c # post" "fst st2 = (fst c, Some (snd c))"
        "f c = Inr (snd st2)" "snd st1 < snd st2"
        "\<forall>b\<in>set pre. \<forall>v. f b = Inr v \<longrightarrow> v < snd st2"
        "\<forall>b\<in>set post. \<forall>v. f b = Inr v \<longrightarrow> v \<le> snd st2"
      unfolding first_maximum_def by blast
    then show ?thesis
    proof cases
      case c
      with a ok show ?thesis by (auto simp add: first_maximum_def)
    next
      case d
      have "xs @ ys = (xs @ pre) @ c # post" using d(1) by simp
      moreover have "\<forall>b\<in>set (xs @ pre). \<forall>v. f b = Inr v \<longrightarrow> v < snd st2"
        using a d by fastforce
      ultimately show ?thesis
        unfolding first_maximum_def using ok d a(1) by blast
    qed
  next
    case b
    from assms(2) consider
      (c) "st2 = st1" "\<forall>c\<in>set ys. \<forall>v. f c = Inr v \<longrightarrow> v \<le> snd st1"
    | (d) pre' c' post' where "ys = pre' @ c' # post'" "fst st2 = (fst c', Some (snd c'))"
        "f c' = Inr (snd st2)" "snd st1 < snd st2"
        "\<forall>b\<in>set pre'. \<forall>v. f b = Inr v \<longrightarrow> v < snd st2"
        "\<forall>b\<in>set post'. \<forall>v. f b = Inr v \<longrightarrow> v \<le> snd st2"
      unfolding first_maximum_def by blast
    then show ?thesis
    proof cases
      case c
      have "xs @ ys = pre @ c # (post @ ys)" using b(1) by simp
      moreover have "\<forall>b\<in>set (post @ ys). \<forall>v. f b = Inr v \<longrightarrow> v \<le> snd st2"
        using b c by auto
      ultimately show ?thesis
        unfolding first_maximum_def using ok b c(1) by blast
    next
      case d
      have e: "xs @ ys = (xs @ pre') @ c' # post'" using d(1) by simp
      have "\<forall>b\<in>set xs. \<forall>v. f b = Inr v \<longrightarrow> v < snd st2"
      proof (intro ballI allI impI)
        fix x v assume x: "x \<in> set xs" and v: "f x = Inr v"
        have "v \<le> snd st1" using x v b by auto
        then show "v < snd st2" using d(4) by simp
      qed
      then have "\<forall>b\<in>set (xs @ pre'). \<forall>v. f b = Inr v \<longrightarrow> v < snd st2"
        using d(5) by auto
      moreover have "snd st0 < snd st2" using b(4) d(4) by simp
      ultimately show ?thesis
        unfolding first_maximum_def using ok d e by blast
    qed
  qed
qed

lemma thresholds_loop_first_maximum:
  "thresholds_loop linalg_inv m ts XX resids dly grid st0 = Inr st \<Longrightarrow>
   first_maximum (objective_at linalg_inv m ts XX resids) (map (Pair dly) grid) st0 st"
proof (induction grid arbitrary: st0)
  case Nil
  then show ?case by (simp add: first_maximum_Nil)
next
  case (Cons t rest)
  obtain ps0 mx0 where st0: "st0 = (ps0, mx0)" by (cases st0)
  let ?f = "objective_at linalg_inv m ts XX resids"
  let ?r = "grid_search_objective linalg_inv m dly (sort (Some t # ts)) XX resids"
  have fr: "?f (dly, t) = ?r" by (simp add: objective_at_def)
  show ?case
  proof (cases ?r)
    case (Inl e)
    with Cons.prems st0 obtain i where e: "e = InvalidRegimeError i"
      and rest: "thresholds_loop linalg_inv m ts XX resids dly rest st0 = Inr st"
      by (cases e) auto
    have one: "first_maximum ?f [(dly, t)] st0 st0"
      using Inl e fr by (simp add: first_maximum_def skipped_def)
    from first_maximum_append[OF one Cons.IH[OF rest]] show ?thesis by simp
  next
    case (Inr obj)
    show ?thesis
    proof (cases "obj > mx0")
      case True
      with Cons.prems st0 Inr
      have rest: "thresholds_loop linalg_inv m ts XX resids dly rest ((dly, Some t), obj) = Inr st"
        by simp
      have one: "first_maximum ?f [(dly, t)] st0 ((dly, Some t), obj)"
        unfolding first_maximum_def using Inr fr True st0
        by (auto intro!: exI[of _ "[]"])
      from first_maximum_append[OF one Cons.IH[OF rest]] show ?thesis by simp
    next
      case False
      with Cons.prems st0 Inr
      have rest: "thresholds_loop linalg_inv m ts XX resids dly rest st0 = Inr st"
        by simp
      have one: "first_maximum ?f [(dly, t)] st0 st0"
        using Inr fr False st0 by (simp add: first_maximum_def)
      from first_maximum_append[OF one Cons.IH[OF rest]] show ?thesis by simp
    qed
  qed
qed

lemma delays_loop_first_maximum:
  "delays_loop linalg_inv m ts grid_size XX resids dlys st0 = Inr st \<Longrightarrow>
   first_maximum (objective_at linalg_inv m ts XX resids) (candidates m grid_size dlys) st0 st"
proof (induction dlys arbitrary: st0)
  case Nil
  then show ?case by (simp add: first_maximum_Nil)
next
  case (Cons dly rest)
  from Cons.prems obtain grid st1 where
    g: "threshold_grid m grid_size dly = Inr grid"
    and t: "thresholds_loop linalg_inv m ts XX resids dly grid st0 = Inr st1"
    and d: "delays_loop linalg_inv m ts grid_size XX resids rest st1 = Inr st"
    by (auto split: sum.splits)
  from first_maximum_append[OF thresholds_loop_first_maximum[OF t] Cons.IH[OF d]] g
  show ?case by simp
qed

lemma delays_loop_grids:
  "delays_loop linalg_inv m ts grid_size XX resids (map Some ds) st0 = Inr st \<Longrightarrow>
   \<exists>grids. length grids = length ds \<and>
     (\<forall>k<length ds. threshold_grid m grid_size (Some (ds ! k)) = Inr (grids ! k)) \<and>
     candidates m grid_size (map Some ds)
       = concat (map2 (\<lambda>d grid. map (Pair (Some d)) grid) ds grids)"
proof (induction ds arbitrary: st0)
  case Nil
  then show ?case by simp
next
  case (Cons d rest)
  from Cons.prems obtain grid st1 where
    g: "threshold_grid m grid_size (Some d) = Inr grid"
    and dl: "delays_loop linalg_inv m ts grid_size XX resids (map Some rest) st1 = Inr st"
    by (auto split: sum.splits)
  from Cons.IH[OF dl] obtain grids where
    gs: "length grids = length rest"
      "\<forall>k<length rest. threshold_grid m grid_size (Some (rest ! k)) = Inr (grids ! k)"
      "candidates m grid_size (map Some rest)
         = concat (map2 (\<lambda>d grid. map (Pair (Some d)) grid) rest grids)"
    by blast
  have "\<forall>k<length (d # rest). threshold_grid m grid_size (Some ((d # rest) ! k)) = Inr ((grid # grids) ! k)"
    using g gs(2) by (auto simp add: nth_Cons split: nat.splits)
  then show ?case using g gs(1,3)
    by (intro exI[of _ "grid # grids"]) simp
qed


text \<open>Claim C9. A seed search that returns has gone through the delays \<open>2, \<dots>, max_delay\<close>
  in ascending order and, for each, through its threshold grid in order: no candidate has
  delay \<open>1\<close>. Each candidate was skipped for \<^verbatim>\<open>InvalidRegimeError\<close> or has an objective
  value. Either no value exceeds \<open>0\<close> and the result is \<^verbatim>\<open>((None, None), 0)\<close>, or the
  result is a candidate with its value, which is positive, strictly above the value of every
  earlier candidate and at least the value of every later one.\<close>
theorem seed_search_first_maximum:
  assumes "select_hyperparameters_grid linalg_inv m ts grid_size XX resids None = Inr (ps, mx)"
  shows "(\<exists>grids. length grids = length [2..max_delay m] \<and>
            (\<forall>k<length [2..max_delay m].
               threshold_grid m grid_size (Some ([2..max_delay m] ! k)) = Inr (grids ! k)) \<and>
            candidates m grid_size (map Some [2..max_delay m])
              = concat (map2 (\<lambda>d grid. map (Pair (Some d)) grid) [2..max_delay m] grids)) \<and>
         (\<forall>c\<in>set (candidates m grid_size (map Some [2..max_delay m])).
            (\<exists>d. fst c = Some d \<and> 2 \<le> d \<and> d \<le> max_delay m) \<and>
            (skipped (objective_at linalg_inv m ts XX resids c) \<or>
             (\<exists>v. objective_at linalg_inv m ts XX resids c = Inr v))) \<and>
         ((ps = (None, None) \<and> mx = 0 \<and>
           (\<forall>c\<in>set (candidates m grid_size (map Some [2..max_delay m])).
              \<forall>v. objective_at linalg_inv m ts XX resids c = Inr v \<longrightarrow> v \<le> 0)) \<or>
          (\<exists>pre c post.
              candidates m grid_size (map Some [2..max_delay m]) = pre @ c # post \<and>
              ps = (fst c, Some (snd c)) \<and>
              objective_at linalg_inv m ts XX resids c = Inr mx \<and> 0 < mx \<and>
              (\<forall>b\<in>set pre. \<forall>v. objective_at linalg_inv m ts XX resids b = Inr v \<longrightarrow> v < mx) \<and>
              (\<forall>b\<in>set post. \<forall>v. objective_at linalg_inv m ts XX resids b = Inr v \<longrightarrow> v \<le> mx)))"
proof -
  let ?ds = "[2..max_delay m]"
  let ?cs = "candidates m grid_size (map Some ?ds)"
  let ?f = "objective_at linalg_inv m ts XX resids"
  from assms have loop:
    "delays_loop linalg_inv m ts grid_size XX resids (map Some ?ds) ((None, None), 0) = Inr (ps, mx)"
    by (simp add: select_hyperparameters_grid_def)
  from delays_loop_grids[OF loop] obtain grids where grids:
    "length grids = length ?ds"
    "\<forall>k<length ?ds. threshold_grid m grid_size (Some (?ds ! k)) = Inr (grids ! k)"
    "?cs = concat (map2 (\<lambda>d grid. map (Pair (Some d)) grid) ?ds grids)"
    by blast
  have delays: "\<exists>d. fst c = Some d \<and> 2 \<le> d \<and> d \<le> max_delay m" if "c \<in> set ?cs" for c
  proof -
    from that grids(3) obtain d grid where "(d, grid) \<in> set (zip ?ds grids)"
      "c \<in> set (map (Pair (Some d)) grid)"
      by auto
    then have "d \<in> set ?ds" "fst c = Some d" by (auto dest: set_zip_leftD)
    then show ?thesis by auto
  qed
  from delays_loop_first_maximum[OF loop]
  have fm: "first_maximum ?f ?cs ((None, None), 0) (ps, mx)" .
  then have ok: "\<forall>c\<in>set ?cs. skipped (?f c) \<or> (\<exists>v. ?f c = Inr v)"
    by (simp add: first_maximum_def)
  from fm have win:
    "(ps = (None, None) \<and> mx = 0 \<and> (\<forall>c\<in>set ?cs. \<forall>v. ?f c = Inr v \<longrightarrow> v \<le> 0)) \<or>
     (\<exists>pre c post. ?cs = pre @ c # post \<and> ps = (fst c, Some (snd c)) \<and>
         ?f c = Inr mx \<and> 0 < mx \<and>
         (\<forall>b\<in>set pre. \<forall>v. ?f b = Inr v \<longrightarrow> v < mx) \<and>
         (\<forall>b\<in>set post. \<forall>v. ?f b = Inr v \<longrightarrow> v \<le> mx))"
    unfolding first_maximum_def by auto
  show ?thesis
    using grids delays ok win by blast
qed

lemma candidates_model3:
  "candidates model3 100 (map Some [2..max_delay model3]) = [(Some 2, 4), (Some 2, 5)]"
  by (simp add: model3_fields upto.simps grid_model3)

theorem seed_search_first_maximum_witness:
  "select_hyperparameters_grid gauss_jordan_inv model3 [] 100 baseline_inverse3 baseline_resids3 None
     = Inr ((Some 2, Some 5), 5039 / 4620) \<and>
   candidates model3 100 (map Some [2..max_delay model3]) = [(Some 2, 4), (Some 2, 5)] \<and>
   objective_at gauss_jordan_inv model3 [] baseline_inverse3 baseline_resids3 (Some 2, 4)
     = Inr (45517 / 44940) \<and>
   objective_at gauss_jordan_inv model3 [] baseline_inverse3 baseline_resids3 (Some 2, 5)
     = Inr (5039 / 4620) \<and>
   (45517 / 44940 :: real) < 5039 / 4620 \<and>
   (\<exists>pre c post.
       candidates model3 100 (map Some [2..max_delay model3]) = pre @ c # post \<and>
       ((Some 2, Some 5) :: params) = (fst c, Some (snd c)) \<and>
       objective_at gauss_jordan_inv model3 [] baseline_inverse3 baseline_resids3 c
         = Inr (5039 / 4620))"
  using seed_search_first_maximum[OF search_grid_model3] search_grid_model3 candidates_model3
    objective_model3_4 objective_model3_5
  by (auto simp add: objective_at_def)

subsection \<open>A singular matrix is not a skipped candidate\<close>

lemma thresholds_loop_returns:
  assumes "\<forall>t\<in>set grid. skipped (objective_at linalg_inv m ts XX resids (dly, t)) \<or>
             (\<exists>v. objective_at linalg_inv m ts XX resids (dly, t) = Inr v)"
  shows "\<exists>st'. thresholds_loop linalg_inv m ts XX resids dly grid st = Inr st'"
  using assms
proof (induction grid arbitrary: st)
  case Nil
  then show ?case by simp
next
  case (Cons t rest)
  obtain ps mx where st: "st = (ps, mx)" by (cases st)
  from Cons.prems have rest: "\<forall>t\<in>set rest. skipped (objective_at linalg_inv m ts XX resids (dly, t)) \<or>
             (\<exists>v. objective_at linalg_inv m ts XX resids (dly, t) = Inr v)" by simp
  from Cons.prems have "skipped (objective_at linalg_inv m ts XX resids (dly, t)) \<or>
             (\<exists>v. objective_at linalg_inv m ts XX resids (dly, t) = Inr v)" by simp
  then show ?case
  proof
    assume "skipped (objective_at linalg_inv m ts XX resids (dly, t))"
    then obtain i where
      "grid_search_objective linalg_inv m dly (sort (Some t # ts)) XX resids = Inl (InvalidRegimeError i)"
      by (auto simp add: skipped_def objective_at_def split: sum.splits error.splits)
    then show ?thesis using Cons.IH[OF rest] st by simp
  next
    assume "\<exists>v. objective_at linalg_inv m ts XX resids (dly, t) = Inr v"
    then obtain v where
      "grid_search_objective linalg_inv m dly (sort (Some t # ts)) XX resids = Inr v"
      by (auto simp add: objective_at_def)
    then show ?thesis using Cons.IH[OF rest] st by simp
  qed
qed

lemma thresholds_loop_raises:
  assumes "\<forall>b\<in>set pre. skipped (objective_at linalg_inv m ts XX resids (dly, b)) \<or>
             (\<exists>v. objective_at linalg_inv m ts XX resids (dly, b) = Inr v)"
    and "objective_at linalg_inv m ts XX resids (dly, t) = Inl e"
    and "\<not> skipped (Inl e)"
  shows "thresholds_loop linalg_inv m ts XX resids dly (pre @ t # post) st = Inl e"
  using assms(1)
proof (induction pre arbitrary: st)
  case Nil
  obtain ps mx where st: "st = (ps, mx)" by (cases st)
  from assms(2,3) show ?case unfolding st
    by (cases e) (simp_all add: objective_at_def skipped_def)
next
  case (Cons b rest)
  obtain ps mx where st: "st = (ps, mx)" by (cases st)
  from Cons.prems have rest: "\<forall>b\<in>set rest. skipped (objective_at linalg_inv m ts XX resids (dly, b)) \<or>
             (\<exists>v. objective_at linalg_inv m ts XX resids (dly, b) = Inr v)" by simp
  from Cons.prems have "skipped (objective_at linalg_inv m ts XX resids (dly, b)) \<or>
             (\<exists>v. objective_at linalg_inv m ts XX resids (dly, b) = Inr v)" by simp
  then show ?case
  proof
    assume "skipped (objective_at linalg_inv m ts XX resids (dly, b))"
    then obtain i where
      "grid_search_objective linalg_inv m dly (sort (Some b # ts)) XX resids = Inl (InvalidRegimeError i)"
      by (auto simp add: skipped_def objective_at_def split: sum.splits error.splits)
    then show ?thesis using Cons.IH[OF rest] st by simp
  next
    assume "\<exists>v. objective_at linalg_inv m ts XX resids (dly, b) = Inr v"
    then obtain v where
      "grid_search_objective linalg_inv m dly (sort (Some b # ts)) XX resids = Inr v"
      by (auto simp add: objective_at_def)
    then show ?thesis using Cons.IH[OF rest] st by simp
  qed
qed

lemma delays_loop_raises:
  assumes "candidates m grid_size dlys = pre @ c # post"
    and "\<forall>b\<in>set pre. skipped (objective_at linalg_inv m ts XX resids b) \<or>
             (\<exists>v. objective_at linalg_inv m ts XX resids b = Inr v)"
    and "objective_at linalg_inv m ts XX resids c = Inl e"
    and "\<not> skipped (Inl e)"
  shows "delays_loop linalg_inv m ts grid_size XX resids dlys st = Inl e"
  using assms(1,2)
proof (induction dlys arbitrary: pre st)
  case Nil
  then show ?case by simp
next
  case (Cons dly rest)
  let ?f = "objective_at linalg_inv m ts XX resids"
  from Cons.prems(1) obtain grid where g: "threshold_grid m grid_size dly = Inr grid"
    and eq: "map (Pair dly) grid @ candidates m grid_size rest = pre @ c # post"
    by (auto split: sum.splits)
  show ?case
  proof (cases "length pre < length grid")
    case True
    define t where "t = grid ! length pre"
    have grid: "grid = take (length pre) grid @ t # drop (Suc (length pre)) grid"
      unfolding t_def using True by (simp add: id_take_nth_drop)
    have pre: "pre = map (Pair dly) (take (length pre) grid)"
    proof -
      have "take (length pre) (map (Pair dly) grid @ candidates m grid_size rest)
              = take (length pre) (pre @ c # post)" using eq by simp
      then show ?thesis using True by (simp add: take_map)
    qed
    have c: "c = (dly, t)"
    proof -
      have "(map (Pair dly) grid @ candidates m grid_size rest) ! length pre
              = (pre @ c # post) ! length pre" using eq by simp
      then show ?thesis using True by (simp add: nth_append t_def)
    qed
    have ok: "\<forall>b\<in>set (take (length pre) grid). skipped (?f (dly, b)) \<or> (\<exists>v. ?f (dly, b) = Inr v)"
    proof
      fix b assume "b \<in> set (take (length pre) grid)"
      then have "(dly, b) \<in> set pre" by (subst pre) auto
      then show "skipped (?f (dly, b)) \<or> (\<exists>v. ?f (dly, b) = Inr v)" using Cons.prems(2) by blast
    qed
    have "thresholds_loop linalg_inv m ts XX resids dly
            (take (length pre) grid @ t # drop (Suc (length pre)) grid) st = Inl e"
      by (rule thresholds_loop_raises[OF ok assms(3)[unfolded c] assms(4)])
    then have "thresholds_loop linalg_inv m ts XX resids dly grid st = Inl e"
      using grid by simp
    then show ?thesis using g by simp
  next
    case False
    define pre2 where "pre2 = drop (length grid) pre"
    have pre: "pre = map (Pair dly) grid @ pre2"
    proof -
      have "take (length grid) (map (Pair dly) grid @ candidates m grid_size rest)
              = take (length grid) (pre @ c # post)" using eq by simp
      then have "map (Pair dly) grid = take (length grid) pre" using False by simp
      then show ?thesis unfolding pre2_def by simp
    qed
    have rest: "candidates m grid_size rest = pre2 @ c # post"
      using eq pre by simp
    have ok1: "\<forall>t\<in>set grid. skipped (?f (dly, t)) \<or> (\<exists>v. ?f (dly, t) = Inr v)"
    proof
      fix t assume "t \<in> set grid"
      then have "(dly, t) \<in> set pre" by (subst pre) auto
      then show "skipped (?f (dly, t)) \<or> (\<exists>v. ?f (dly, t) = Inr v)" using Cons.prems(2) by blast
    qed
    have ok2: "\<forall>b\<in>set pre2. skipped (?f b) \<or> (\<exists>v. ?f b = Inr v)"
      using Cons.prems(2) pre by auto
    from thresholds_loop_returns[OF ok1] obtain st1 where
      "thresholds_loop linalg_inv m ts XX resids dly grid st = Inr st1" by blast
    then show ?thesis using g Cons.IH[OF rest ok2] by simp
  qed
qed

lemma objective_singular:
  assumes "fst (build_datasets m dly ts (Some (length ts + 1))) = Inr (endog1, exog1)"
    and "length exog1 = length (design_rows m)"
    and "linalg_inv (inner_matrix (length ts * (ar_order m + 1)) (ar_order m + 1)
                       (incremental_design (ar_order m + 1) exog1) (design_rows m) XX) = None"
  shows "grid_search_objective linalg_inv m dly ts XX resids = Inl LinAlgError"
  using assms by (simp add: grid_search_objective_def Let_def incremental_design_def)

text \<open>Claim C3 (as amended). Inside the grid search only \<^verbatim>\<open>InvalidRegimeError\<close> excludes a
  candidate. When the loops reach a candidate (every earlier one was skipped or has a value)
  whose partition succeeds and whose matrix \<^verbatim>\<open>numpy.linalg.inv\<close> refuses as singular, the
  \<^verbatim>\<open>LinAlgError\<close> is not caught: the candidate is not skipped and the error is what
  \<^verbatim>\<open>_select_hyperparameters_grid\<close> raises.\<close>
theorem singular_matrix_propagates:
  assumes "candidates m grid_size (case delay_grid of None \<Rightarrow> map Some [2..max_delay m] | Some g \<Rightarrow> g)
             = pre @ (dly, t) # post"
    and "\<forall>b\<in>set pre. skipped (objective_at linalg_inv m ts XX resids b) \<or>
             (\<exists>v. objective_at linalg_inv m ts XX resids b = Inr v)"
    and "fst (build_datasets m dly (sort (Some t # ts)) (Some (length (sort (Some t # ts)) + 1)))
           = Inr (endog1, exog1)"
    and "length exog1 = length (design_rows m)"
    and "linalg_inv (inner_matrix (length (sort (Some t # ts)) * (ar_order m + 1)) (ar_order m + 1)
                       (incremental_design (ar_order m + 1) exog1) (design_rows m) XX) = None"
  shows "objective_at linalg_inv m ts XX resids (dly, t) = Inl LinAlgError \<and>
         \<not> skipped (objective_at linalg_inv m ts XX resids (dly, t)) \<and>
         select_hyperparameters_grid linalg_inv m ts grid_size XX resids delay_grid = Inl LinAlgError"
proof -
  have obj: "objective_at linalg_inv m ts XX resids (dly, t) = Inl LinAlgError"
    unfolding objective_at_def fst_conv snd_conv
    using assms(3,4,5) by (intro objective_singular) auto
  have ns: "\<not> skipped (Inl LinAlgError)" by (simp add: skipped_def)
  have "delays_loop linalg_inv m ts grid_size XX resids
          (case delay_grid of None \<Rightarrow> map Some [2..max_delay m] | Some g \<Rightarrow> g) ((None, None), 0)
        = Inl LinAlgError"
    by (rule delays_loop_raises[OF assms(1,2) obj ns])
  then show ?thesis using obj ns by (simp add: select_hyperparameters_grid_def)
qed

lemma candidates_model4:
  "candidates model4 100 (map Some [2..max_delay model4])
     = [(Some 2, - 2), (Some 2, - 1), (Some 2, 0), (Some 2, 5)]"
  by (simp add: model4_fields upto.simps grid_model4)

theorem singular_matrix_propagates_witness:
  "candidates model4 100 (map Some [2..max_delay model4])
     = [] @ (Some 2, - 2) # [(Some 2, - 1), (Some 2, 0), (Some 2, 5)] \<and>
   objective_at gauss_jordan_inv model4 [] baseline_inverse4 baseline_resids4 (Some 2, - 2)
     = Inl LinAlgError \<and>
   \<not> skipped (objective_at gauss_jordan_inv model4 [] baseline_inverse4 baseline_resids4 (Some 2, - 2)) \<and>
   select_hyperparameters_grid gauss_jordan_inv model4 [] 100 baseline_inverse4 baseline_resids4 None
     = Inl LinAlgError"
proof -
  have h1: "candidates model4 100 (case None of None \<Rightarrow> map Some [2..max_delay model4] | Some g \<Rightarrow> g)
     = [] @ (Some 2, - 2) # [(Some 2, - 1), (Some 2, 0), (Some 2, 5)]"
    using candidates_model4 by simp
  have h2: "\<forall>b\<in>set []. skipped (objective_at gauss_jordan_inv model4 [] baseline_inverse4 baseline_resids4 b) \<or>
             (\<exists>v. objective_at gauss_jordan_inv model4 [] baseline_inverse4 baseline_resids4 b = Inr v)"
    by simp
  have h3: "fst (build_datasets model4 (Some 2) (sort (Some (- 2) # []))
                  (Some (length (sort (Some (- 2 :: real) # [])) + 1)))
           = Inr ([5, - 2, 0, 6, - 1, 0, 7, 4],
                  [[1, 0, - 3, 0, 0, 0], [0, 0, 0, 1, 5, 0], [0, 0, 0, 1, - 2, 5], [1, 0, - 2, 0, 0, 0],
                   [0, 0, 0, 1, 6, 0], [0, 0, 0, 1, - 1, 6], [0, 0, 0, 1, 0, - 1], [0, 0, 0, 1, 7, 0]])"
    using build_model4_neg2 by (simp add: numeral_2_eq_2)
  have h4: "length [[1, 0, - 3, 0, 0, 0], [0, 0, 0, 1, 5, 0], [0, 0, 0, 1, - 2, 5], [1, 0, - 2, 0, 0, 0],
                   [0, 0, 0, 1, 6, 0], [0, 0, 0, 1, - 1, 6], [0, 0, 0, 1, 0, - 1], [0, 0, 0, 1, 7, 0 :: real]]
              = length (design_rows model4)"
    by (simp add: design_rows_model4)
  have h5: "gauss_jordan_inv (inner_matrix (length (sort (Some (- 2 :: real) # [])) * (ar_order model4 + 1))
               (ar_order model4 + 1)
               (incremental_design (ar_order model4 + 1)
                  [[1, 0, - 3, 0, 0, 0], [0, 0, 0, 1, 5, 0], [0, 0, 0, 1, - 2, 5], [1, 0, - 2, 0, 0, 0],
                   [0, 0, 0, 1, 6, 0], [0, 0, 0, 1, - 1, 6], [0, 0, 0, 1, 0, - 1], [0, 0, 0, 1, 7, 0]])
               (design_rows model4) baseline_inverse4) = None"
    by (simp add: model4_fields design_rows_model4 incremental_model4_neg2 inner_model4_neg2
          inverse_model4_neg2)
  show ?thesis
    using singular_matrix_propagates[OF h1 h2 h3 h4 h5] h1 by (simp add: skipped_def)
qed

text \<open>A series on which the claim fails: \<^verbatim>\<open>SETAR(series4, 2, 2)\<close>. The first candidate of the
  seed search is the threshold \<open>-2\<close> at delay \<open>2\<close>; its partition succeeds, the matrix to
  invert has a zero row and column, and the \<^verbatim>\<open>LinAlgError\<close> leaves the grid search,
  \<^verbatim>\<open>select_hyperparameters\<close> and \<^verbatim>\<open>fit\<close>.\<close>

theorem singular_matrix_counterexample:
  "init series4 2 2 None None (round_double (1 / 10)) None 100 = Inr model4 \<and>
   threshold_grid model4 100 (Some 2) = Inr [- 2, - 1, 0, 5] \<and>
   fst (build_datasets model4 (Some 2) [Some (- 2)] (Some 2))
     = Inr ([5, - 2, 0, 6, - 1, 0, 7, 4],
            [[1, 0, - 3, 0, 0, 0], [0, 0, 0, 1, 5, 0], [0, 0, 0, 1, - 2, 5], [1, 0, - 2, 0, 0, 0],
             [0, 0, 0, 1, 6, 0], [0, 0, 0, 1, - 1, 6], [0, 0, 0, 1, 0, - 1], [0, 0, 0, 1, 7, 0]]) \<and>
   inner_matrix 3 3
     [[1, 0, - 3], [0, 0, 0], [0, 0, 0], [1, 0, - 2], [0, 0, 0], [0, 0, 0], [0, 0, 0], [0, 0, 0]]
     (design_rows model4) baseline_inverse4
     = [[22453 / 44802, 0, - (470 / 393)], [0, 0, 0], [- (470 / 393), 0, 438 / 131]] \<and>
   grid_search_objective gauss_jordan_inv model4 (Some 2) [Some (- 2)] baseline_inverse4
     baseline_resids4 = Inl LinAlgError \<and>
   select_hyperparameters_grid gauss_jordan_inv model4 [] 100 baseline_inverse4 baseline_resids4 None
     = Inl LinAlgError \<and>
   select_hyperparameters gauss_jordan_inv model4 = Inl LinAlgError \<and>
   fit gauss_jordan_inv (\<lambda>endog1 exog1. ()) model4 = (Inl LinAlgError, model4)"
  using init_model4 grid_model4 build_model4_neg2 inner_model4_neg2 objective_model4_neg2
    search_grid_model4 select_model4
  by (simp add: design_rows_model4 fit_def model4_fields)

end
